theory Spec2Isabelle
  imports Main "HOL-Library.Sublist"
begin

section \<open>Strings and buffers\<close>

text \<open>
  A JavaScript string is modelled by its UTF-8 encoding, one \<^typ>\<open>char\<close> per byte, which is
  also what \<^verbatim>\<open>Buffer.from(str)\<close> produces; a \<^verbatim>\<open>Buffer\<close> is a list of bytes as well.
  The characters the adapters test for are ASCII, or are matched as their byte sequences.
\<close>

type_synonym bytes = "char list"

definition CRLF :: string where
  "CRLF = [CHR 0x0D, CHR 0x0A]"

definition DQUOTE :: char where
  "DQUOTE = CHR 0x22"

section \<open>String cleaning\<close>

text \<open>
  The characters that \<^verbatim>\<open>\s\<close> and \<^verbatim>\<open>trim\<close> take for white space (the \<^verbatim>\<open>WhiteSpace\<close> and
  \<^verbatim>\<open>LineTerminator\<close> productions), each as its UTF-8 byte sequence.
\<close>

definition white_space :: "string list" where
  "white_space =
     [[CHR 0x09], [CHR 0x0A], [CHR 0x0B], [CHR 0x0C], [CHR 0x0D], [CHR 0x20],
      [CHR 0xC2, CHR 0xA0],
      [CHR 0xE1, CHR 0x9A, CHR 0x80],
      [CHR 0xE2, CHR 0x80, CHR 0x80], [CHR 0xE2, CHR 0x80, CHR 0x81],
      [CHR 0xE2, CHR 0x80, CHR 0x82], [CHR 0xE2, CHR 0x80, CHR 0x83],
      [CHR 0xE2, CHR 0x80, CHR 0x84], [CHR 0xE2, CHR 0x80, CHR 0x85],
      [CHR 0xE2, CHR 0x80, CHR 0x86], [CHR 0xE2, CHR 0x80, CHR 0x87],
      [CHR 0xE2, CHR 0x80, CHR 0x88], [CHR 0xE2, CHR 0x80, CHR 0x89],
      [CHR 0xE2, CHR 0x80, CHR 0x8A],
      [CHR 0xE2, CHR 0x80, CHR 0xA8], [CHR 0xE2, CHR 0x80, CHR 0xA9],
      [CHR 0xE2, CHR 0x80, CHR 0xAF],
      [CHR 0xE2, CHR 0x81, CHR 0x9F],
      [CHR 0xE3, CHR 0x80, CHR 0x80],
      [CHR 0xEF, CHR 0xBB, CHR 0xBF]]"

text \<open>The class \<^verbatim>\<open>[\u200B-\u200D\uFEFF]\<close>: the zero-width characters and the byte order mark.\<close>

definition invisible :: "string list" where
  "invisible =
     [[CHR 0xE2, CHR 0x80, CHR 0x8B], [CHR 0xE2, CHR 0x80, CHR 0x8C],
      [CHR 0xE2, CHR 0x80, CHR 0x8D], [CHR 0xEF, CHR 0xBB, CHR 0xBF]]"

text \<open>The first of the given sequences that starts the string.\<close>

definition leading :: "string list \<Rightarrow> string \<Rightarrow> string option" where
  "leading seqs s = find (\<lambda>w. w \<noteq> [] \<and> prefix w s) seqs"

lemma leading_shorter:
  assumes "leading seqs s = Some w"
  shows "length (drop (length w) s) < length s"
proof -
  from assms have "w \<noteq> []" and "prefix w s"
    by (auto simp: leading_def find_Some_iff)
  then have "s \<noteq> []" by auto
  with \<open>w \<noteq> []\<close> show ?thesis by simp
qed

text \<open>Dropping every leading character of a class: \<^verbatim>\<open>trimStart\<close>, and a greedy \<^verbatim>\<open>\s*\<close>.\<close>

function strip_leading :: "string list \<Rightarrow> string \<Rightarrow> string" where
  "strip_leading seqs s =
     (case leading seqs s of
        None \<Rightarrow> s
      | Some w \<Rightarrow> strip_leading seqs (drop (length w) s))"
  by pat_completeness auto
termination
  by (relation "measure (\<lambda>(seqs, s). length s)") (auto dest: leading_shorter)

declare strip_leading.simps [simp del]

lemma strip_leading_length: "length (strip_leading seqs s) \<le> length s"
proof (induction seqs s rule: strip_leading.induct)
  case (1 seqs s)
  show ?case
  proof (cases "leading seqs s")
    case None
    then show ?thesis by (simp add: strip_leading.simps [of seqs s])
  next
    case (Some w)
    with 1 have "length (strip_leading seqs (drop (length w) s)) \<le> length (drop (length w) s)"
      by simp
    with Some show ?thesis by (simp add: strip_leading.simps [of seqs s])
  qed
qed

lemma strip_leading_shorter:
  assumes "leading seqs s = Some w"
  shows "length (strip_leading seqs s) < length s"
proof -
  have "length (strip_leading seqs (drop (length w) s)) \<le> length (drop (length w) s)"
    by (rule strip_leading_length)
  moreover from assms have "length (drop (length w) s) < length s"
    by (rule leading_shorter)
  moreover from assms have "strip_leading seqs s = strip_leading seqs (drop (length w) s)"
    by (simp add: strip_leading.simps [of seqs s])
  ultimately show ?thesis by simp
qed

definition trim :: "string \<Rightarrow> string" where
  "trim s = rev (strip_leading (map rev white_space) (rev (strip_leading white_space s)))"

text \<open>\<^verbatim>\<open>s.replace(/p/g, r)\<close> for a pattern that is one of several literal sequences.\<close>

function replace_each :: "string list \<Rightarrow> string \<Rightarrow> string \<Rightarrow> string" where
  "replace_each pats r [] = []"
| "replace_each pats r (c # cs) =
     (case leading pats (c # cs) of
        Some w \<Rightarrow> r @ replace_each pats r (drop (length w) (c # cs))
      | None \<Rightarrow> c # replace_each pats r cs)"
  by pat_completeness auto
termination
  by (relation "measure (\<lambda>(pats, r, s). length s)") (auto dest: leading_shorter)

text \<open>\<^verbatim>\<open>s.replace(/\s+/g, ' ')\<close>.\<close>

function collapse_spaces :: "string \<Rightarrow> string" where
  "collapse_spaces [] = []"
| "collapse_spaces (c # cs) =
     (case leading white_space (c # cs) of
        Some w \<Rightarrow> CHR '' '' # collapse_spaces (strip_leading white_space (c # cs))
      | None \<Rightarrow> c # collapse_spaces cs)"
  by pat_completeness auto
termination
  by (relation "measure length") (auto dest: strip_leading_shorter)

declare collapse_spaces.simps [simp del] replace_each.simps [simp del]

text \<open>The class \<^verbatim>\<open>[{}[\]":,]\<close>.\<close>

definition separator :: "char \<Rightarrow> bool" where
  "separator c = (c \<in> set ''{}[]:,'' \<or> c = DQUOTE)"

text \<open>
  \<^verbatim>\<open>s.replace(/\s*([{}[\]":,])/g, '$1')\<close>: white space is dropped where a separator follows
  the whole run; the greedy \<^verbatim>\<open>\s*\<close> gives back nothing that would help.
\<close>

function drop_spaces_before :: "string \<Rightarrow> string" where
  "drop_spaces_before [] = []"
| "drop_spaces_before (c # cs) =
     (case strip_leading white_space (c # cs) of
        [] \<Rightarrow> c # drop_spaces_before cs
      | x # xs \<Rightarrow> if separator x then x # drop_spaces_before xs
                  else c # drop_spaces_before cs)"
  by pat_completeness auto
termination
proof (relation "measure length", goal_cases)
  case 1
  show ?case by simp
next
  case 2
  then show ?case by simp
next
  case (3 c cs x xs)
  have "length (strip_leading white_space (c # cs)) \<le> length (c # cs)"
    by (rule strip_leading_length)
  with 3 show ?case by simp
next
  case 4
  then show ?case by simp
qed

text \<open>\<^verbatim>\<open>s.replace(/([{}[\]":,])\s*/g, '$1')\<close>.\<close>

function drop_spaces_after :: "string \<Rightarrow> string" where
  "drop_spaces_after [] = []"
| "drop_spaces_after (c # cs) =
     (if separator c then c # drop_spaces_after (strip_leading white_space cs)
      else c # drop_spaces_after cs)"
  by pat_completeness auto
termination
proof (relation "measure length", goal_cases)
  case 1
  show ?case by simp
next
  case (2 c cs)
  have "length (strip_leading white_space cs) \<le> length cs"
    by (rule strip_leading_length)
  then show ?case by simp
next
  case 3
  then show ?case by simp
qed

section \<open>Heuristic JSON repair (InformationExtractionUpstage)\<close>

text \<open>\<^verbatim>\<open>(s.match(/c/g) || []).length\<close> for a single literal character \<open>c\<close>.\<close>

definition match_count :: "char \<Rightarrow> string \<Rightarrow> nat" where
  "match_count c s = length (filter (\<lambda>x. x = c) s)"

text \<open>
  \<^verbatim>\<open>s.replace(/c+$/, r)\<close> for a literal character \<open>c\<close>: without the \<^verbatim>\<open>m\<close> flag \<^verbatim>\<open>$\<close> is the
  end of the input, so the leftmost match is the maximal run of \<open>c\<close> that ends the string;
  a string that does not end in \<open>c\<close> has no match and is returned as it is.
\<close>

definition replace_trailing_run :: "char \<Rightarrow> string \<Rightarrow> string \<Rightarrow> string" where
  "replace_trailing_run c r s =
     (if s \<noteq> [] \<and> last s = c then rev (dropWhile (\<lambda>x. x = c) (rev s)) @ r else s)"

text \<open>
  Step 2 of \<^verbatim>\<open>validateAndFixJsonStructure\<close> (lines 20 to 59): the four counts are taken on
  the argument, the brace fix comes first, the bracket fix works on its result.
\<close>

definition fixImbalance :: "string \<Rightarrow> string" where
  "fixImbalance jsonString =
     (let openBraces = match_count CHR ''{'' jsonString;
          closeBraces = match_count CHR ''}'' jsonString;
          openBrackets = match_count CHR ''['' jsonString;
          closeBrackets = match_count CHR '']'' jsonString;
          fixedJson = jsonString;
          fixedJson =
            (if openBraces > closeBraces then
               (let missingBraces = openBraces - closeBraces
                in fixedJson @ replicate missingBraces CHR ''}'')
             else if closeBraces > openBraces then
               (let extraBraces = closeBraces - openBraces
                in replace_trailing_run CHR ''}''
                     (replicate (closeBraces - extraBraces) CHR ''}'') fixedJson)
             else fixedJson);
          fixedJson =
            (if openBrackets > closeBrackets then
               (let missingBrackets = openBrackets - closeBrackets
                in fixedJson @ replicate missingBrackets CHR '']'')
             else if closeBrackets > openBrackets then
               (let extraBrackets = closeBrackets - openBrackets
                in replace_trailing_run CHR '']''
                     (replicate (closeBrackets - extraBrackets) CHR '']'') fixedJson)
             else fixedJson)
      in fixedJson)"

text \<open>
  \<^verbatim>\<open>s.replace(/("properties":\{[^}]*)\}\}\}\}/g, '$1}}}')\<close>. At a position where the literal
  starts, the greedy class takes every character up to the next closing brace; giving
  characters back cannot help, since the next pattern character is a closing brace. So the
  pattern matches there exactly when four closing braces follow, the match is replaced by
  itself less one brace, and the scan goes on behind the match.
\<close>

definition properties_literal :: string where
  "properties_literal = DQUOTE # ''properties'' @ DQUOTE # '':{''"

text \<open>The match of the pattern at the head of a string: its group and what follows the match.\<close>

definition properties_match :: "string \<Rightarrow> (string \<times> string) option" where
  "properties_match s =
     (if prefix properties_literal s then
        (let after = drop (length properties_literal) s;
             inner = takeWhile (\<lambda>x. x \<noteq> CHR ''}'') after;
             rest = dropWhile (\<lambda>x. x \<noteq> CHR ''}'') after
         in if prefix ''}}}}'' rest then Some (properties_literal @ inner, drop 4 rest)
            else None)
      else None)"

lemma properties_match_shorter:
  assumes "properties_match s = Some (g, r)"
  shows "length r < length s"
proof -
  let ?after = "drop (length properties_literal) s"
  let ?rest = "dropWhile (\<lambda>x. x \<noteq> CHR ''}'') ?after"
  from assms have pre: "prefix properties_literal s" and four: "prefix ''}}}}'' ?rest"
    and r: "r = drop 4 ?rest"
    by (auto simp: properties_match_def Let_def split: if_splits)
  from four have "4 \<le> length ?rest"
    using prefix_length_le by fastforce
  moreover have "length ?rest \<le> length ?after"
    by (rule length_dropWhile_le)
  ultimately show ?thesis using r by simp
qed

text \<open>\<^verbatim>\<open>propertiesPattern.test(s)\<close>: the pattern matches at some position.\<close>

fun properties_test :: "string \<Rightarrow> bool" where
  "properties_test [] = False"
| "properties_test (c # cs) = (properties_match (c # cs) \<noteq> None \<or> properties_test cs)"

function replace_properties :: "string \<Rightarrow> string" where
  "replace_properties [] = []"
| "replace_properties (c # cs) =
     (case properties_match (c # cs) of
        Some (g, rest) \<Rightarrow> g @ ''}}}'' @ replace_properties rest
      | None \<Rightarrow> c # replace_properties cs)"
  by pat_completeness auto
termination
  by (relation "measure length") (auto dest: properties_match_shorter)

text \<open>
  \<^verbatim>\<open>s.replace(/\}\}\}+/g, match => ...)\<close>: a match is a maximal run of three or more closing
  braces; the callback returns two braces when the run is longer than two, the run itself
  otherwise.
\<close>

function reduce_closing_braces :: "string \<Rightarrow> string" where
  "reduce_closing_braces [] = []"
| "reduce_closing_braces (c # cs) =
     (if prefix ''}}}'' (c # cs) then
        (let match = takeWhile (\<lambda>x. x = CHR ''}'') (c # cs);
             count = length match
         in (if count > 2 then ''}}'' else match)
            @ reduce_closing_braces (dropWhile (\<lambda>x. x = CHR ''}'') (c # cs)))
      else c # reduce_closing_braces cs)"
  by pat_completeness auto
termination
proof (relation "measure length", goal_cases)
  case 1
  show ?case by simp
next
  case (2 c cs)
  then have "c = CHR ''}''" by simp
  moreover have "length (dropWhile (\<lambda>x. x = CHR ''}'') cs) \<le> length cs"
    by (rule length_dropWhile_le)
  ultimately show ?case by simp
next
  case 3
  then show ?case by simp
qed

definition advancedJsonFix :: "string \<Rightarrow> string" where
  "advancedJsonFix jsonString =
     (let jsonString =
            (if properties_test jsonString
             then replace_properties jsonString else jsonString);
          jsonString = reduce_closing_braces jsonString
      in jsonString)"

text \<open>
  \<^verbatim>\<open>validateAndFixJsonStructure\<close>. The runtime's \<^verbatim>\<open>JSON.parse\<close> is used only for whether it
  throws, and is the parameter \<open>parse_ok\<close>. Nothing in the outer \<^verbatim>\<open>try\<close> block throws: both
  \<^verbatim>\<open>repeat\<close> counts are differences taken in the branch where they are positive or a count,
  and the inner \<^verbatim>\<open>try\<close> blocks catch the parse failures; the outer \<^verbatim>\<open>catch\<close> is not reached.
\<close>

definition validateAndFixJsonStructure :: "(string \<Rightarrow> bool) \<Rightarrow> string \<Rightarrow> string" where
  "validateAndFixJsonStructure parse_ok jsonString =
     (let fixedJson = fixImbalance jsonString
      in if parse_ok fixedJson then fixedJson
         else (let fixedJson = advancedJsonFix fixedJson
               in if parse_ok fixedJson then fixedJson else jsonString))"

section \<open>The JSON grammar\<close>

text \<open>
  A recogniser for the JSON grammar (ECMA-404), the texts on which the runtime's
  \<^verbatim>\<open>JSON.parse\<close> does not throw: one pass over the characters with a stack of the open
  containers. It is the instance of \<open>parse_ok\<close> on which the repair is evaluated.
\<close>

datatype container = InObject | InArray

datatype scan =
    ExpValue | ExpValueOrClose | ExpKeyOrClose | ExpKey | ExpColon | AfterValue
  | InString bool | InEscape bool | InUnicode bool nat
  | NumMinus | NumZero | NumInt | NumDot | NumFrac | NumE | NumESign | NumExp
  | Literal string
  | Reject

definition json_ws :: "char \<Rightarrow> bool" where
  "json_ws c = (c = CHR '' '' \<or> c = CHR 0x09 \<or> c = CHR 0x0A \<or> c = CHR 0x0D)"

definition is_digit :: "char \<Rightarrow> bool" where
  "is_digit c = (c \<in> set ''0123456789'')"

definition is_hex_digit :: "char \<Rightarrow> bool" where
  "is_hex_digit c = (c \<in> set ''0123456789abcdefABCDEF'')"

definition start_value :: "container list \<Rightarrow> char \<Rightarrow> scan \<times> container list" where
  "start_value stk c =
     (if c = CHR ''{'' then (ExpKeyOrClose, InObject # stk)
      else if c = CHR ''['' then (ExpValueOrClose, InArray # stk)
      else if c = DQUOTE then (InString False, stk)
      else if c = CHR ''-'' then (NumMinus, stk)
      else if c = CHR ''0'' then (NumZero, stk)
      else if is_digit c then (NumInt, stk)
      else if c = CHR ''t'' then (Literal ''rue'', stk)
      else if c = CHR ''f'' then (Literal ''alse'', stk)
      else if c = CHR ''n'' then (Literal ''ull'', stk)
      else (Reject, stk))"

definition after_value :: "container list \<Rightarrow> char \<Rightarrow> scan \<times> container list" where
  "after_value stk c =
     (if json_ws c then (AfterValue, stk)
      else case stk of
        [] \<Rightarrow> (Reject, stk)
      | InArray # up \<Rightarrow>
          if c = CHR '','' then (ExpValue, stk)
          else if c = CHR '']'' then (AfterValue, up) else (Reject, stk)
      | InObject # up \<Rightarrow>
          if c = CHR '','' then (ExpKey, stk)
          else if c = CHR ''}'' then (AfterValue, up) else (Reject, stk))"

fun scan_step :: "scan \<times> container list \<Rightarrow> char \<Rightarrow> scan \<times> container list" where
  "scan_step (ExpValue, stk) c = (if json_ws c then (ExpValue, stk) else start_value stk c)"
| "scan_step (ExpValueOrClose, stk) c =
     (if json_ws c then (ExpValueOrClose, stk)
      else if c = CHR '']'' then (AfterValue, tl stk) else start_value stk c)"
| "scan_step (ExpKeyOrClose, stk) c =
     (if json_ws c then (ExpKeyOrClose, stk)
      else if c = CHR ''}'' then (AfterValue, tl stk)
      else if c = DQUOTE then (InString True, stk) else (Reject, stk))"
| "scan_step (ExpKey, stk) c =
     (if json_ws c then (ExpKey, stk)
      else if c = DQUOTE then (InString True, stk) else (Reject, stk))"
| "scan_step (ExpColon, stk) c =
     (if json_ws c then (ExpColon, stk)
      else if c = CHR '':'' then (ExpValue, stk) else (Reject, stk))"
| "scan_step (AfterValue, stk) c = after_value stk c"
| "scan_step (InString key, stk) c =
     (if c = DQUOTE then (if key then ExpColon else AfterValue, stk)
      else if c = CHR 0x5C then (InEscape key, stk)
      else if (of_char c :: nat) < 32 then (Reject, stk)
      else (InString key, stk))"
| "scan_step (InEscape key, stk) c =
     (if c = CHR ''u'' then (InUnicode key 4, stk)
      else if c = DQUOTE \<or> c = CHR 0x5C \<or> c \<in> set ''/bfnrt'' then (InString key, stk)
      else (Reject, stk))"
| "scan_step (InUnicode key n, stk) c =
     (if is_hex_digit c then (if n \<le> 1 then InString key else InUnicode key (n - 1), stk)
      else (Reject, stk))"
| "scan_step (NumMinus, stk) c =
     (if c = CHR ''0'' then (NumZero, stk)
      else if is_digit c then (NumInt, stk) else (Reject, stk))"
| "scan_step (NumZero, stk) c =
     (if c = CHR ''.'' then (NumDot, stk)
      else if c = CHR ''e'' \<or> c = CHR ''E'' then (NumE, stk)
      else if is_digit c then (Reject, stk) else after_value stk c)"
| "scan_step (NumInt, stk) c =
     (if is_digit c then (NumInt, stk)
      else if c = CHR ''.'' then (NumDot, stk)
      else if c = CHR ''e'' \<or> c = CHR ''E'' then (NumE, stk) else after_value stk c)"
| "scan_step (NumDot, stk) c = (if is_digit c then (NumFrac, stk) else (Reject, stk))"
| "scan_step (NumFrac, stk) c =
     (if is_digit c then (NumFrac, stk)
      else if c = CHR ''e'' \<or> c = CHR ''E'' then (NumE, stk) else after_value stk c)"
| "scan_step (NumE, stk) c =
     (if c = CHR ''+'' \<or> c = CHR ''-'' then (NumESign, stk)
      else if is_digit c then (NumExp, stk) else (Reject, stk))"
| "scan_step (NumESign, stk) c = (if is_digit c then (NumExp, stk) else (Reject, stk))"
| "scan_step (NumExp, stk) c = (if is_digit c then (NumExp, stk) else after_value stk c)"
| "scan_step (Literal [], stk) c = (Reject, stk)"
| "scan_step (Literal (x # xs), stk) c =
     (if c = x then (if xs = [] then AfterValue else Literal xs, stk) else (Reject, stk))"
| "scan_step (Reject, stk) c = (Reject, stk)"

definition scan_done :: "scan \<times> container list \<Rightarrow> bool" where
  "scan_done st = (snd st = [] \<and> fst st \<in> {AfterValue, NumZero, NumInt, NumFrac, NumExp})"

definition json_wellformed :: "string \<Rightarrow> bool" where
  "json_wellformed s = scan_done (foldl scan_step (ExpValue, []) s)"

section \<open>JavaScript values\<close>

text \<open>
  The values that parameters, responses and output items carry. Numbers are integers here:
  the adapters pass numbers through and compare only a file size and a page count.
\<close>

datatype jsvalue =
    JUndefined | JNull | JBool bool | JNum int | JStr string
  | JArr "jsvalue list" | JObj "(string \<times> jsvalue) list"

definition nullish :: "jsvalue \<Rightarrow> bool" where
  "nullish v = (v = JUndefined \<or> v = JNull)"

fun truthy :: "jsvalue \<Rightarrow> bool" where
  "truthy JUndefined = False"
| "truthy JNull = False"
| "truthy (JBool b) = b"
| "truthy (JNum n) = (n \<noteq> 0)"
| "truthy (JStr s) = (s \<noteq> [])"
| "truthy (JArr xs) = True"
| "truthy (JObj kvs) = True"

text \<open>\<^verbatim>\<open>v ?? d\<close> and \<^verbatim>\<open>v || d\<close>.\<close>

definition nullish_or :: "jsvalue \<Rightarrow> jsvalue \<Rightarrow> jsvalue" where
  "nullish_or v d = (if nullish v then d else v)"

definition falsy_or :: "jsvalue \<Rightarrow> jsvalue \<Rightarrow> jsvalue" where
  "falsy_or v d = (if truthy v then v else d)"

text \<open>\<^verbatim>\<open>typeof v === 'object' && v !== null\<close>.\<close>

fun is_object :: "jsvalue \<Rightarrow> bool" where
  "is_object (JArr xs) = True"
| "is_object (JObj kvs) = True"
| "is_object v = False"

function string_of_nat :: "nat \<Rightarrow> string" where
  "string_of_nat n =
     (if n < 10 then [''0123456789'' ! n]
      else string_of_nat (n div 10) @ [''0123456789'' ! (n mod 10)])"
  by pat_completeness auto
termination
  by (relation "measure id") auto

text \<open>
  \<^verbatim>\<open>v?.name\<close>: \<^verbatim>\<open>undefined\<close> on \<^verbatim>\<open>null\<close> and \<^verbatim>\<open>undefined\<close>, and on every value that has no
  such property; none of the names the adapters read is a property of a string, a number,
  a boolean or an array.
\<close>

fun get_prop :: "jsvalue \<Rightarrow> string \<Rightarrow> jsvalue" where
  "get_prop (JObj kvs) name = (case map_of kvs name of Some v \<Rightarrow> v | None \<Rightarrow> JUndefined)"
| "get_prop v name = JUndefined"

text \<open>
  \<^verbatim>\<open>v?.[n]\<close>: an array element, the property named by the index, or one character of a
  string (one byte here; the adapters only ever read a named property of the result, which a
  string does not have).
\<close>

fun get_index :: "jsvalue \<Rightarrow> nat \<Rightarrow> jsvalue" where
  "get_index (JArr xs) n = (if n < length xs then xs ! n else JUndefined)"
| "get_index (JStr s) n = (if n < length s then JStr [s ! n] else JUndefined)"
| "get_index (JObj kvs) n = get_prop (JObj kvs) (string_of_nat n)"
| "get_index v n = JUndefined"

section \<open>The host and the runtime\<close>

text \<open>
  A thrown value is an object: whether it is an \<^verbatim>\<open>Error\<close>, and its \<^verbatim>\<open>message\<close>,
  \<^verbatim>\<open>statusCode\<close> and \<^verbatim>\<open>code\<close> properties. An \<^verbatim>\<open>Error\<close> without a message of its own reads
  the empty prototype message.
\<close>

record js_error =
  is_Error :: bool
  message :: "string option"
  statusCode :: jsvalue
  code :: jsvalue

definition new_Error :: "string \<Rightarrow> js_error" where
  "new_Error msg = \<lparr>is_Error = True, message = Some msg, statusCode = JUndefined, code = JUndefined\<rparr>"

text \<open>\<^verbatim>\<open>error.message\<close> as a string, and \<^verbatim>\<open>error.message || 'Unknown error'\<close>.\<close>

definition error_message :: "js_error \<Rightarrow> string" where
  "error_message e = (case message e of Some m \<Rightarrow> m | None \<Rightarrow> [])"

definition message_or_unknown :: "js_error \<Rightarrow> string" where
  "message_or_unknown e =
     (case message e of
        Some m \<Rightarrow> if m \<noteq> [] then m else ''Unknown error''
      | None \<Rightarrow> ''Unknown error'')"

text \<open>
  The built-ins of the runtime that the adapters call and the model leaves open: what they
  compute is no part of this repository. \<^verbatim>\<open>JSON.parse\<close> gives the message of its
  \<^verbatim>\<open>SyntaxError\<close> or the value; the clock and the random source are read once per item.
\<close>

record runtime =
  JSON_parse :: "string \<Rightarrow> string + jsvalue"
  JSON_stringify :: "jsvalue \<Rightarrow> string"
  toBase64 :: "bytes \<Rightarrow> string"
  encodeURIComponent :: "string \<Rightarrow> string"
  toISOString_now :: "nat \<Rightarrow> string"
  random_base36 :: "nat \<Rightarrow> string"
  TypeError_message :: "string \<Rightarrow> string"
  ToString :: "jsvalue \<Rightarrow> string"

definition TypeError :: "runtime \<Rightarrow> string \<Rightarrow> js_error" where
  "TypeError rt what = new_Error (TypeError_message rt what)"

record binary_data =
  fileName :: "string option"
  mimeType :: "string option"
  fileSize :: jsvalue

text \<open>\<^verbatim>\<open>INodeExecutionData\<close>: input items have no \<^verbatim>\<open>pairedItem\<close>, output items carry the index.\<close>

record INodeExecutionData =
  json :: jsvalue
  binary :: "(string \<times> binary_data) list option"
  pairedItem :: "nat option"

datatype http_body = NoBody | BufferBody bytes | JsonBody jsvalue

text \<open>The request descriptor; its \<^verbatim>\<open>method\<close> field is \<open>http_method\<close> here.\<close>

record IHttpRequestOptions =
  http_method :: string
  url :: string
  body :: http_body
  headers :: "(string \<times> string) list"
  json_flag :: bool

text \<open>
  The host: \<^verbatim>\<open>getNodeParameter(name, i)\<close> and \<^verbatim>\<open>getNodeParameter(name, i, fallback)\<close> at
  the type the adapter casts the result to, the binary buffer of an item, and the
  authenticated HTTP call, which take the index of the item they are made for. The last
  two may throw; the parameter reads are total, a host that throws from
  \<^verbatim>\<open>getNodeParameter\<close> is outside the model.
\<close>

record host =
  continueOnFail :: bool
  stringParameter :: "string \<Rightarrow> nat \<Rightarrow> string"
  stringParameterOr :: "string \<Rightarrow> nat \<Rightarrow> string \<Rightarrow> string"
  booleanParameterOr :: "string \<Rightarrow> nat \<Rightarrow> bool \<Rightarrow> bool"
  numberParameterOr :: "string \<Rightarrow> nat \<Rightarrow> int \<Rightarrow> int"
  stringsParameterOr :: "string \<Rightarrow> nat \<Rightarrow> string list \<Rightarrow> string list"
  rawParameter :: "string \<Rightarrow> nat \<Rightarrow> jsvalue"
  getBinaryDataBuffer :: "nat \<Rightarrow> string \<Rightarrow> js_error + bytes"
  httpRequestWithAuthentication :: "nat \<Rightarrow> IHttpRequestOptions \<Rightarrow> js_error + jsvalue"

text \<open>\<^verbatim>\<open>s || d\<close> for an optional string.\<close>

definition string_or :: "string option \<Rightarrow> string \<Rightarrow> string" where
  "string_or s d = (case s of Some x \<Rightarrow> if x \<noteq> [] then x else d | None \<Rightarrow> d)"

text \<open>
  \<^verbatim>\<open>!item.binary || !item.binary[name]\<close> followed by the read of the property: the binary
  data, or the error the adapters throw.
\<close>

definition binary_property :: "INodeExecutionData \<Rightarrow> string \<Rightarrow> js_error + binary_data" where
  "binary_property item binaryPropertyName =
     (case binary item of
        None \<Rightarrow> Inl (new_Error (''No binary data found in property '' @
                   DQUOTE # binaryPropertyName @ DQUOTE # ''.''))
      | Some props \<Rightarrow>
          (case map_of props binaryPropertyName of
             None \<Rightarrow> Inl (new_Error (''No binary data found in property '' @
                        DQUOTE # binaryPropertyName @ DQUOTE # ''.''))
           | Some binaryData \<Rightarrow> Inr binaryData))"

section \<open>Multipart body builder\<close>

record upload_file =
  buffer :: bytes
  filename :: string
  contentType :: string

record form_data =
  form_body :: bytes
  form_contentType :: string

text \<open>
  \<^verbatim>\<open>createMultipartFormData\<close>, the same function in the OCR and the parsing module. The
  argument \<open>rnd\<close> is the value of \<^verbatim>\<open>Math.random().toString(36).substring(2)\<close>; \<open>entries\<close> is
  \<^verbatim>\<open>Object.entries(fields)\<close>.
\<close>

definition createMultipartFormData ::
  "string \<Rightarrow> (string \<times> string) list \<Rightarrow> upload_file \<Rightarrow> form_data" where
  "createMultipartFormData rnd entries file =
     (let boundary = ''----WebKitFormBoundary'' @ rnd;
          parts = map (\<lambda>(name, value).
                    ''--'' @ boundary @ CRLF @
                    ''Content-Disposition: form-data; name='' @ DQUOTE # name @ DQUOTE # CRLF @ CRLF @
                    value @ CRLF) entries;
          parts = parts @
                  [''--'' @ boundary @ CRLF @
                   ''Content-Disposition: form-data; name='' @ DQUOTE # ''document'' @ DQUOTE #
                     ''; filename='' @ DQUOTE # filename file @ DQUOTE # CRLF @
                   ''Content-Type: '' @ contentType file @ CRLF @ CRLF];
          parts = parts @ [buffer file];
          parts = parts @ [CRLF];
          parts = parts @ [''--'' @ boundary @ ''--'' @ CRLF]
      in \<lparr>form_body = concat parts,
          form_contentType = ''multipart/form-data; boundary='' @ boundary\<rparr>)"

section \<open>A reference multipart parser\<close>

text \<open>
  The reading side of the multipart claim: a parser for the \<^verbatim>\<open>multipart/form-data\<close> syntax
  of RFC 2046 and RFC 7578, written from the grammar and not from the builder. A body is
  a sequence of parts, each behind a delimiter line (CRLF, two dashes, the boundary) and
  ended by the delimiter followed by two dashes; a part is header lines up to an empty
  line, then the content up to the next delimiter; the \<^verbatim>\<open>Content-Disposition\<close> header
  carries the name and, for a file, the file name as quoted strings in which a backslash
  quotes the next character.
\<close>

datatype form_part =
    FieldPart string string
  | FilePart string string string bytes

text \<open>The first occurrence of a pattern: what stands before it and what follows it.\<close>

fun split_first :: "string \<Rightarrow> string \<Rightarrow> (string \<times> string) option" where
  "split_first p [] = (if p = [] then Some ([], []) else None)"
| "split_first p (c # cs) =
     (if prefix p (c # cs) then Some ([], drop (length p) (c # cs))
      else case split_first p cs of
             None \<Rightarrow> None
           | Some (before, after) \<Rightarrow> Some (c # before, after))"

lemma split_first_length:
  assumes "split_first p s = Some (before, after)"
  shows "length before + length p + length after = length s"
  using assms
proof (induction s arbitrary: before)
  case Nil
  then show ?case by (simp split: if_splits)
next
  case (Cons c cs)
  show ?case
  proof (cases "prefix p (c # cs)")
    case True
    with Cons.prems have "before = []" "after = drop (length p) (c # cs)" by simp_all
    moreover from True have "length p \<le> length (c # cs)" by (rule prefix_length_le)
    ultimately show ?thesis by simp
  next
    case False
    with Cons.prems obtain b where "split_first p cs = Some (b, after)" "before = c # b"
      by (auto split: option.splits)
    with Cons.IH [of b] show ?thesis by simp
  qed
qed

definition boundary_of :: "string \<Rightarrow> string option" where
  "boundary_of header =
     (if prefix ''multipart/form-data; boundary='' header
      then Some (drop (length ''multipart/form-data; boundary='') header) else None)"

text \<open>The header lines of a part, up to the empty line, and the content behind it.\<close>

function split_headers :: "string \<Rightarrow> (string list \<times> string) option" where
  "split_headers s =
     (case split_first CRLF s of
        None \<Rightarrow> None
      | Some (line, rest) \<Rightarrow>
          if line = [] then Some ([], rest)
          else (case split_headers rest of
                  None \<Rightarrow> None
                | Some (lines, content) \<Rightarrow> Some (line # lines, content)))"
  by pat_completeness auto
termination
  by (relation "measure length") (auto dest!: split_first_length simp: CRLF_def)

declare split_headers.simps [simp del]

definition header_value :: "string \<Rightarrow> string list \<Rightarrow> string option" where
  "header_value name lines =
     map_option (drop (length name + 2)) (find (prefix (name @ '': '')) lines)"

text \<open>A quoted string, read from behind its opening quote: its text and what follows it.\<close>

fun unquote :: "string \<Rightarrow> (string \<times> string) option" where
  "unquote [] = None"
| "unquote (c # cs) =
     (if c = DQUOTE then Some ([], cs)
      else if c = CHR 0x5C then
        (case cs of
           [] \<Rightarrow> None
         | d # ds \<Rightarrow>
             (case unquote ds of None \<Rightarrow> None | Some (quoted, rest) \<Rightarrow> Some (d # quoted, rest)))
      else
        (case unquote cs of None \<Rightarrow> None | Some (quoted, rest) \<Rightarrow> Some (c # quoted, rest)))"

definition quoted_after :: "string \<Rightarrow> string \<Rightarrow> (string \<times> string) option" where
  "quoted_after key s =
     (if prefix (key @ [DQUOTE]) s then unquote (drop (length key + 1) s) else None)"

definition parse_disposition :: "string \<Rightarrow> (string \<times> string option) option" where
  "parse_disposition v =
     (case quoted_after ''form-data; name='' v of
        None \<Rightarrow> None
      | Some (name, rest) \<Rightarrow>
          if rest = [] then Some (name, None)
          else (case quoted_after ''; filename='' rest of
                  None \<Rightarrow> None
                | Some (file, rest') \<Rightarrow> if rest' = [] then Some (name, Some file) else None))"

definition parse_part :: "string \<Rightarrow> form_part option" where
  "parse_part chunk =
     (case split_headers chunk of
        None \<Rightarrow> None
      | Some (lines, content) \<Rightarrow>
          (case header_value ''Content-Disposition'' lines of
             None \<Rightarrow> None
           | Some v \<Rightarrow>
               (case parse_disposition v of
                  None \<Rightarrow> None
                | Some (name, None) \<Rightarrow> Some (FieldPart name content)
                | Some (name, Some file) \<Rightarrow>
                    Some (FilePart name file
                            (case header_value ''Content-Type'' lines of
                               Some t \<Rightarrow> t
                             | None \<Rightarrow> ''text/plain'')
                            content))))"

text \<open>
  The parts behind a delimiter: two dashes close the body, a line break opens a part that
  runs up to the next delimiter.
\<close>

function parse_after :: "string \<Rightarrow> string \<Rightarrow> form_part list option" where
  "parse_after delimiter s =
     (if prefix ''--'' s then Some []
      else if prefix CRLF s then
        (case split_first delimiter (drop 2 s) of
           None \<Rightarrow> None
         | Some (chunk, rest) \<Rightarrow>
             (case parse_part chunk of
                None \<Rightarrow> None
              | Some part \<Rightarrow>
                  (case parse_after delimiter rest of
                     None \<Rightarrow> None
                   | Some parts \<Rightarrow> Some (part # parts))))
      else None)"
  by pat_completeness auto
termination
proof (relation "measure (\<lambda>(delimiter, s). length s)", goal_cases)
  case 1
  show ?case by simp
next
  case (2 delimiter s x2 chunk rest)
  then have "split_first delimiter (drop 2 s) = Some (chunk, rest)" by simp
  from split_first_length [OF this] have "length rest \<le> length (drop 2 s)" by simp
  moreover from 2 have "2 \<le> length s"
    using prefix_length_le [of CRLF s] by (simp add: CRLF_def)
  ultimately show ?case by simp
qed

declare parse_after.simps [simp del]

text \<open>
  The body is read with the boundary that the content-type header value carries; the first
  delimiter line stands at the start of the body, without the line break before it.
\<close>

definition parse_multipart :: "string \<Rightarrow> bytes \<Rightarrow> form_part list option" where
  "parse_multipart header bs =
     (case boundary_of header of
        None \<Rightarrow> None
      | Some boundary \<Rightarrow>
          (let delimiter = CRLF @ ''--'' @ boundary
           in if prefix delimiter (CRLF @ bs)
              then parse_after delimiter (drop (length delimiter) (CRLF @ bs))
              else None))"

text \<open>What the multipart claim expects the parser to find.\<close>

definition expected_parts :: "(string \<times> string) list \<Rightarrow> upload_file \<Rightarrow> form_part list" where
  "expected_parts entries file =
     map (\<lambda>(name, value). FieldPart name value) entries
     @ [FilePart ''document'' (filename file) (contentType file) (buffer file)]"

text \<open>A string that can stand between quotes in a header line as it is.\<close>

definition header_safe :: "string \<Rightarrow> bool" where
  "header_safe s = (DQUOTE \<notin> set s \<and> CHR 0x5C \<notin> set s \<and> CHR 0x0D \<notin> set s \<and> CHR 0x0A \<notin> set s)"

definition line_safe :: "string \<Rightarrow> bool" where
  "line_safe s = (CHR 0x0D \<notin> set s \<and> CHR 0x0A \<notin> set s)"

text \<open>The delimiter line of a boundary does not occur in a content that follows a line break.\<close>

definition delimiter_free :: "string \<Rightarrow> bytes \<Rightarrow> bool" where
  "delimiter_free boundary content = (\<not> sublist (CRLF @ ''--'' @ boundary) (CRLF @ content))"

definition base36 :: "string \<Rightarrow> bool" where
  "base36 s = (set s \<subseteq> set ''0123456789abcdefghijklmnopqrstuvwxyz'')"

text \<open>The text of a field part and of the file part between their delimiter lines.\<close>

definition field_chunk :: "string \<Rightarrow> string \<Rightarrow> string" where
  "field_chunk name value =
     ''Content-Disposition: form-data; name='' @ DQUOTE # name @ DQUOTE # CRLF @ CRLF @ value"

definition file_chunk :: "upload_file \<Rightarrow> string" where
  "file_chunk file =
     ''Content-Disposition: form-data; name='' @ DQUOTE # ''document'' @ DQUOTE #
       ''; filename='' @ DQUOTE # filename file @ DQUOTE # CRLF @
     ''Content-Type: '' @ contentType file @ CRLF @ CRLF @ buffer file"

definition field_stream :: "string \<Rightarrow> (string \<times> string) list \<Rightarrow> string \<Rightarrow> string" where
  "field_stream delimiter entries rest =
     foldr (\<lambda>(name, value) acc. CRLF @ field_chunk name value @ delimiter @ acc) entries rest"

section \<open>The item loop\<close>

text \<open>
  What one pass of a \<^verbatim>\<open>try\<close> block does: the HTTP requests it issued, tagged with the item
  index, and either the thrown value or the items it pushed onto \<^verbatim>\<open>returnData\<close>.
\<close>

type_synonym attempt = "(nat \<times> IHttpRequestOptions) list \<times> (js_error + INodeExecutionData list)"

text \<open>
  The one HTTP call of an item: nothing is requested when building the request threw;
  otherwise the request is issued and the response, unless the call throws, is mapped.
\<close>

definition with_request ::
  "host \<Rightarrow> nat \<Rightarrow> js_error + IHttpRequestOptions \<Rightarrow>
   (jsvalue \<Rightarrow> js_error + INodeExecutionData list) \<Rightarrow> attempt" where
  "with_request h i requestOptions on_response =
     (case requestOptions of
        Inl e \<Rightarrow> ([], Inl e)
      | Inr req \<Rightarrow>
          ([(i, req)],
           case httpRequestWithAuthentication h i req of
             Inl e \<Rightarrow> Inl e
           | Inr response \<Rightarrow> on_response response))"

record run_state =
  returnData :: "INodeExecutionData list"
  requests :: "(nat \<times> IHttpRequestOptions) list"

text \<open>
  \<^verbatim>\<open>for (let i = 0; i < items.length; i++) { try { ... } catch (error) { ... } }\<close> over the
  indices still to visit: a pass that throws goes to the \<^verbatim>\<open>catch\<close> block, which pushes an
  item or throws; a throw from there ends the loop with the state reached.
\<close>

fun for_items ::
  "(nat \<Rightarrow> attempt) \<Rightarrow> (nat \<Rightarrow> js_error \<Rightarrow> js_error + INodeExecutionData list) \<Rightarrow>
   nat list \<Rightarrow> run_state \<Rightarrow> run_state \<times> js_error option" where
  "for_items try catch [] st = (st, None)"
| "for_items try catch (i # rest) st =
     (case try i of
        (reqs, Inr pushed) \<Rightarrow>
          for_items try catch rest
            \<lparr>returnData = returnData st @ pushed, requests = requests st @ reqs\<rparr>
      | (reqs, Inl error) \<Rightarrow>
          (case catch i error of
             Inr pushed \<Rightarrow>
               for_items try catch rest
                 \<lparr>returnData = returnData st @ pushed, requests = requests st @ reqs\<rparr>
           | Inl thrown \<Rightarrow>
               (\<lparr>returnData = returnData st, requests = requests st @ reqs\<rparr>, Some thrown)))"

text \<open>The outcome of \<^verbatim>\<open>execute\<close>: \<^verbatim>\<open>return [returnData]\<close> or the exception, with the requests made.\<close>

datatype outcome = Returned "INodeExecutionData list" | Threw js_error

definition run_loop ::
  "(nat \<Rightarrow> attempt) \<Rightarrow> (nat \<Rightarrow> js_error \<Rightarrow> js_error + INodeExecutionData list) \<Rightarrow>
   nat \<Rightarrow> (nat \<times> IHttpRequestOptions) list \<times> outcome" where
  "run_loop try catch n =
     (case for_items try catch [0..<n] \<lparr>returnData = [], requests = []\<rparr> of
        (st, None) \<Rightarrow> (requests st, Returned (returnData st))
      | (st, Some thrown) \<Rightarrow> (requests st, Threw thrown))"

section \<open>Document OCR adapter\<close>

text \<open>\<^verbatim>\<open>fileSize && typeof fileSize === 'number' && fileSize > 50 * 1024 * 1024\<close>.\<close>

fun exceeds_limit :: "jsvalue \<Rightarrow> bool" where
  "exceeds_limit (JNum n) = (n \<noteq> 0 \<and> n > 50 * 1024 * 1024)"
| "exceeds_limit v = False"

definition DocumentOCRUpstage_request ::
  "runtime \<Rightarrow> host \<Rightarrow> INodeExecutionData list \<Rightarrow> nat \<Rightarrow> js_error + IHttpRequestOptions" where
  "DocumentOCRUpstage_request rt h items i =
     (let binaryPropertyName = stringParameter h ''binaryPropertyName'' i;
          model = stringParameter h ''model'' i;
          schema = stringParameter h ''schema'' i;
          item = items ! i
      in case binary_property item binaryPropertyName of
           Inl e \<Rightarrow> Inl e
         | Inr binaryData \<Rightarrow>
             if exceeds_limit (fileSize binaryData)
             then Inl (new_Error ''File size exceeds 50MB limit'')
             else (case getBinaryDataBuffer h i binaryPropertyName of
                     Inl e \<Rightarrow> Inl e
                   | Inr buf \<Rightarrow>
                       (let fields = [(''model'', model)] @
                                     (if schema \<noteq> [] then [(''schema'', schema)] else []);
                            form = createMultipartFormData (random_base36 rt i) fields
                                     \<lparr>buffer = buf,
                                      filename = string_or (fileName binaryData) ''upload'',
                                      contentType = string_or (mimeType binaryData)
                                                      ''application/octet-stream''\<rparr>
                        in Inr \<lparr>http_method = ''POST'',
                                url = ''https://api.upstage.ai/v1/document-digitization'',
                                body = BufferBody (form_body form),
                                headers = [(''Content-Type'', form_contentType form)],
                                json_flag = False\<rparr>)))"

text \<open>
  \<^verbatim>\<open>pages?.flatMap(page => page.words || [])\<close> on the elements of an array: reading
  \<^verbatim>\<open>words\<close> of a \<^verbatim>\<open>null\<close> or \<^verbatim>\<open>undefined\<close> page throws, an array result is spliced in, any
  other result is one element.
\<close>

fun flatMap_words :: "runtime \<Rightarrow> jsvalue list \<Rightarrow> js_error + jsvalue list" where
  "flatMap_words rt [] = Inr []"
| "flatMap_words rt (page # pages) =
     (if nullish page then Inl (TypeError rt ''Cannot read properties of null or undefined'')
      else case flatMap_words rt pages of
             Inl e \<Rightarrow> Inl e
           | Inr rest \<Rightarrow>
               Inr ((case falsy_or (get_prop page ''words'') (JArr []) of
                       JArr ws \<Rightarrow> ws
                     | w \<Rightarrow> [w]) @ rest))"

definition allWords :: "runtime \<Rightarrow> jsvalue \<Rightarrow> js_error + jsvalue" where
  "allWords rt ocrResponse =
     (let pages = get_prop ocrResponse ''pages''
      in if nullish pages then Inr (JArr [])
         else case pages of
                JArr ps \<Rightarrow> (case flatMap_words rt ps of
                              Inl e \<Rightarrow> Inl e
                            | Inr ws \<Rightarrow> Inr (JArr ws))
              | other \<Rightarrow> Inl (TypeError rt ''flatMap is not a function''))"

definition DocumentOCRUpstage_response ::
  "runtime \<Rightarrow> host \<Rightarrow> nat \<Rightarrow> jsvalue \<Rightarrow> js_error + INodeExecutionData list" where
  "DocumentOCRUpstage_response rt h i ocrResponse =
     (let returnMode = stringParameter h ''returnMode'' i
      in if \<not> truthy ocrResponse \<or> \<not> is_object ocrResponse
         then Inl (new_Error ''Invalid response format from Upstage OCR API'')
         else if returnMode = ''text'' then
           Inr [\<lparr>json = JObj [(''text'', nullish_or (get_prop ocrResponse ''text'') (JStr []))],
                 binary = None, pairedItem = Some i\<rparr>]
         else if returnMode = ''pages'' then
           Inr [\<lparr>json = JObj [(''pages'', nullish_or (get_prop ocrResponse ''pages'') (JArr []))],
                 binary = None, pairedItem = Some i\<rparr>]
         else if returnMode = ''words'' then
           (case allWords rt ocrResponse of
              Inl e \<Rightarrow> Inl e
            | Inr ws \<Rightarrow>
                Inr [\<lparr>json = JObj [(''words'', ws)], binary = None, pairedItem = Some i\<rparr>])
         else if returnMode = ''confidence'' then
           Inr [\<lparr>json = JObj
                   [(''confidence'', nullish_or (get_prop ocrResponse ''confidence'') (JNum 0)),
                    (''modelVersion'', nullish_or (get_prop ocrResponse ''modelVersion'') (JStr [])),
                    (''numBilledPages'',
                       nullish_or (get_prop ocrResponse ''numBilledPages'') (JNum 0))],
                 binary = None, pairedItem = Some i\<rparr>]
         else
           Inr [\<lparr>json = ocrResponse, binary = None, pairedItem = Some i\<rparr>])"

definition DocumentOCRUpstage_try ::
  "runtime \<Rightarrow> host \<Rightarrow> INodeExecutionData list \<Rightarrow> nat \<Rightarrow> attempt" where
  "DocumentOCRUpstage_try rt h items i =
     with_request h i (DocumentOCRUpstage_request rt h items i)
       (DocumentOCRUpstage_response rt h i)"

text \<open>\<^verbatim>\<open>typeof error.statusCode === 'number' ? error.statusCode : undefined\<close>.\<close>

definition numeric_statusCode :: "js_error \<Rightarrow> jsvalue" where
  "numeric_statusCode e = (case statusCode e of JNum n \<Rightarrow> JNum n | other \<Rightarrow> JUndefined)"

definition DocumentOCRUpstage_catch ::
  "runtime \<Rightarrow> host \<Rightarrow> nat \<Rightarrow> js_error \<Rightarrow> js_error + INodeExecutionData list" where
  "DocumentOCRUpstage_catch rt h i error =
     (let errorMessage = (if is_Error error then error_message error else ''Unknown error'');
          statusCode = numeric_statusCode error
      in if continueOnFail h then
           Inr [\<lparr>json = JObj
                   [(''error'', JStr errorMessage),
                    (''statusCode'', statusCode),
                    (''error_code'', falsy_or (code error) (JStr ''unknown_error'')),
                    (''timestamp'', JStr (toISOString_now rt i))],
                 binary = None, pairedItem = Some i\<rparr>]
         else
           Inl (new_Error (''Upstage Document OCR failed for item '' @ string_of_nat i @
                           '': '' @ errorMessage)))"

definition DocumentOCRUpstage_execute ::
  "runtime \<Rightarrow> host \<Rightarrow> INodeExecutionData list \<Rightarrow> (nat \<times> IHttpRequestOptions) list \<times> outcome"
  where
  "DocumentOCRUpstage_execute rt h items =
     run_loop (DocumentOCRUpstage_try rt h items) (DocumentOCRUpstage_catch rt h) (length items)"

section \<open>Document classification adapter\<close>

definition image_url_content :: "string \<Rightarrow> jsvalue" where
  "image_url_content u =
     JArr [JObj [(''type'', JStr ''image_url''), (''image_url'', JObj [(''url'', JStr u)])]]"

text \<open>The \<^verbatim>\<open>data:\<close> URL both LLM-style adapters build from a binary property.\<close>

definition binary_data_url ::
  "runtime \<Rightarrow> host \<Rightarrow> INodeExecutionData list \<Rightarrow> nat \<Rightarrow> js_error + string" where
  "binary_data_url rt h items i =
     (let binaryPropertyName = stringParameter h ''binaryPropertyName'' i;
          item = items ! i
      in case binary_property item binaryPropertyName of
           Inl e \<Rightarrow> Inl e
         | Inr binaryData \<Rightarrow>
             (case getBinaryDataBuffer h i binaryPropertyName of
                Inl e \<Rightarrow> Inl e
              | Inr buf \<Rightarrow>
                  Inr (''data:'' @ string_or (mimeType binaryData) ''application/octet-stream'' @
                       '';base64,'' @ toBase64 rt buf)))"

text \<open>
  \<^verbatim>\<open>categories.values.map(cat => ({const: cat.label, description: cat.description}))\<close>:
  the read of \<^verbatim>\<open>map\<close> throws when \<^verbatim>\<open>values\<close> is missing, the call when it is no array, the
  callback when an element is \<^verbatim>\<open>null\<close> or \<^verbatim>\<open>undefined\<close>.
\<close>

fun map_categories :: "runtime \<Rightarrow> jsvalue list \<Rightarrow> js_error + jsvalue list" where
  "map_categories rt [] = Inr []"
| "map_categories rt (cat # cats) =
     (if nullish cat then Inl (TypeError rt ''Cannot read properties of null or undefined'')
      else case map_categories rt cats of
             Inl e \<Rightarrow> Inl e
           | Inr rest \<Rightarrow>
               Inr (JObj [(''const'', get_prop cat ''label''),
                          (''description'', get_prop cat ''description'')] # rest))"

definition categories_oneOf :: "runtime \<Rightarrow> jsvalue \<Rightarrow> js_error + jsvalue" where
  "categories_oneOf rt categories =
     (if nullish categories then Inl (TypeError rt ''Cannot read properties of null or undefined'')
      else case get_prop categories ''values'' of
             JArr cats \<Rightarrow> (case map_categories rt cats of
                             Inl e \<Rightarrow> Inl e
                           | Inr xs \<Rightarrow> Inr (JArr xs))
           | other \<Rightarrow>
               if nullish other
               then Inl (TypeError rt ''Cannot read properties of null or undefined'')
               else Inl (TypeError rt ''map is not a function''))"

text \<open>The image of the request: a data URL in binary mode, the given URL otherwise.\<close>

definition DocumentClassificationUpstage_content ::
  "runtime \<Rightarrow> host \<Rightarrow> INodeExecutionData list \<Rightarrow> nat \<Rightarrow> js_error + jsvalue" where
  "DocumentClassificationUpstage_content rt h items i =
     (let inputType = stringParameter h ''inputType'' i
      in if inputType = ''binary'' then
           (case binary_data_url rt h items i of
              Inl e \<Rightarrow> Inl e
            | Inr u \<Rightarrow> Inr (image_url_content u))
         else
           (let imageUrl = stringParameter h ''imageUrl'' i
            in if imageUrl = []
               then Inl (new_Error ''Image URL is required when input type is URL.'')
               else Inr (image_url_content imageUrl)))"

text \<open>
  The \<^verbatim>\<open>oneOf\<close> list. The check for an array sits inside the \<^verbatim>\<open>try\<close> whose \<^verbatim>\<open>catch\<close> wraps
  every message, its own included.
\<close>

definition DocumentClassificationUpstage_oneOf ::
  "runtime \<Rightarrow> host \<Rightarrow> nat \<Rightarrow> js_error + jsvalue" where
  "DocumentClassificationUpstage_oneOf rt h i =
     (let schemaInputType = stringParameter h ''schemaInputType'' i;
          categories = (if schemaInputType = ''form'' then rawParameter h ''categories'' i
                        else JObj [(''values'', JArr [])]);
          rawJsonSchema = (if schemaInputType = ''form'' then []
                           else stringParameter h ''rawJsonSchema'' i)
      in if schemaInputType = ''form'' then categories_oneOf rt categories
         else if rawJsonSchema = []
         then Inl (new_Error ''Raw JSON schema is required when input type is JSON.'')
         else (case JSON_parse rt rawJsonSchema of
                 Inl msg \<Rightarrow> Inl (new_Error (''Invalid JSON format: '' @ msg))
               | Inr (JArr xs) \<Rightarrow> Inr (JArr xs)
               | Inr other \<Rightarrow>
                   Inl (new_Error (''Invalid JSON format: '' @
                                   ''Raw JSON schema must be an array.''))))"

definition DocumentClassificationUpstage_request ::
  "runtime \<Rightarrow> host \<Rightarrow> INodeExecutionData list \<Rightarrow> nat \<Rightarrow> js_error + IHttpRequestOptions" where
  "DocumentClassificationUpstage_request rt h items i =
     (let model = stringParameter h ''model'' i;
          schemaName = stringParameter h ''schemaName'' i
      in case DocumentClassificationUpstage_content rt h items i of
           Inl e \<Rightarrow> Inl e
         | Inr content \<Rightarrow>
             (case DocumentClassificationUpstage_oneOf rt h i of
                Inl e \<Rightarrow> Inl e
              | Inr oneOf \<Rightarrow>
                  Inr \<lparr>http_method = ''POST'',
                       url = ''https://api.upstage.ai/v1/document-classification'',
                       body = JsonBody (JObj
                         [(''model'', JStr model),
                          (''messages'',
                             JArr [JObj [(''role'', JStr ''user''), (''content'', content)]]),
                          (''response_format'', JObj
                             [(''type'', JStr ''json_schema''),
                              (''json_schema'', JObj
                                 [(''name'', JStr schemaName),
                                  (''schema'', JObj
                                     [(''type'', JStr ''string''), (''oneOf'', oneOf)])])])]),
                       headers = [(''Content-Type'', ''application/json'')],
                       json_flag = False\<rparr>))"

text \<open>\<^verbatim>\<open>response?.choices?.[0]\<close>.\<close>

definition first_choice :: "jsvalue \<Rightarrow> jsvalue" where
  "first_choice response = get_index (get_prop response ''choices'') 0"

definition DocumentClassificationUpstage_response ::
  "host \<Rightarrow> nat \<Rightarrow> jsvalue \<Rightarrow> js_error + INodeExecutionData list" where
  "DocumentClassificationUpstage_response h i response =
     (let returnMode = stringParameter h ''returnMode'' i
      in if returnMode = ''classification'' then
           (let classification =
                  falsy_or (get_prop (get_prop (first_choice response) ''message'') ''content'')
                    (JStr [])
            in Inr [\<lparr>json = JObj
                       [(''classification'', classification),
                        (''confidence'',
                           if get_prop (first_choice response) ''finish_reason'' = JStr ''stop''
                           then JStr ''high'' else JStr ''low'')],
                     binary = None, pairedItem = Some i\<rparr>])
         else
           Inr [\<lparr>json = response, binary = None, pairedItem = Some i\<rparr>])"

definition DocumentClassificationUpstage_try ::
  "runtime \<Rightarrow> host \<Rightarrow> INodeExecutionData list \<Rightarrow> nat \<Rightarrow> attempt" where
  "DocumentClassificationUpstage_try rt h items i =
     with_request h i (DocumentClassificationUpstage_request rt h items i)
       (DocumentClassificationUpstage_response h i)"

text \<open>The \<^verbatim>\<open>catch\<close> block of the classification and of the extraction adapter.\<close>

definition error_item_or_rethrow ::
  "host \<Rightarrow> nat \<Rightarrow> js_error \<Rightarrow> js_error + INodeExecutionData list" where
  "error_item_or_rethrow h i error =
     (if continueOnFail h then
        Inr [\<lparr>json = JObj [(''error'', JStr (message_or_unknown error))],
              binary = None, pairedItem = Some i\<rparr>]
      else Inl error)"

definition DocumentClassificationUpstage_execute ::
  "runtime \<Rightarrow> host \<Rightarrow> INodeExecutionData list \<Rightarrow> (nat \<times> IHttpRequestOptions) list \<times> outcome"
  where
  "DocumentClassificationUpstage_execute rt h items =
     run_loop (DocumentClassificationUpstage_try rt h items) (error_item_or_rethrow h)
       (length items)"

section \<open>Document parsing adapter\<close>

definition string_of_bool :: "bool \<Rightarrow> string" where
  "string_of_bool b = (if b then ''true'' else ''false'')"

definition strings_json :: "runtime \<Rightarrow> string list \<Rightarrow> string" where
  "strings_json rt xs = JSON_stringify rt (JArr (map JStr xs))"

definition DocumentParsingUpstage_upload_request ::
  "runtime \<Rightarrow> host \<Rightarrow> INodeExecutionData list \<Rightarrow> nat \<Rightarrow> js_error + IHttpRequestOptions" where
  "DocumentParsingUpstage_upload_request rt h items i =
     (let operation = stringParameter h ''operation'' i;
          binaryPropertyName = stringParameter h ''binaryPropertyName'' i;
          model = stringParameter h ''model'' i;
          ocr = stringParameter h ''ocr'' i;
          base64Categories = stringsParameterOr h ''base64Categories'' i [];
          mergeMultipage = booleanParameterOr h ''merge_multipage_tables'' i False;
          outputFormats = stringsParameterOr h ''outputFormats'' i [''html''];
          coordinates = booleanParameterOr h ''coordinates'' i True;
          chartRecognition = booleanParameterOr h ''chartRecognition'' i True;
          item = items ! i
      in case binary_property item binaryPropertyName of
           Inl e \<Rightarrow> Inl e
         | Inr binaryData \<Rightarrow>
             (case getBinaryDataBuffer h i binaryPropertyName of
                Inl e \<Rightarrow> Inl e
              | Inr buf \<Rightarrow>
                  (let fields =
                         [(''model'', model),
                          (''ocr'', ocr),
                          (''output_formats'', strings_json rt outputFormats),
                          (''coordinates'', string_of_bool coordinates),
                          (''chart_recognition'', string_of_bool chartRecognition)] @
                         (if length base64Categories > 0
                          then [(''base64_encoding'', strings_json rt base64Categories)] else []) @
                         (if mergeMultipage then [(''merge_multipage_tables'', ''true'')] else []);
                       form = createMultipartFormData (random_base36 rt i) fields
                                \<lparr>buffer = buf,
                                 filename = string_or (fileName binaryData) ''upload'',
                                 contentType = string_or (mimeType binaryData)
                                                 ''application/octet-stream''\<rparr>;
                       url = (if operation = ''sync''
                              then ''https://api.upstage.ai/v1/document-digitization''
                              else ''https://api.upstage.ai/v1/document-digitization/async'')
                   in Inr \<lparr>http_method = ''POST'', url = url,
                           body = BufferBody (form_body form),
                           headers = [(''Content-Type'', form_contentType form)],
                           json_flag = False\<rparr>)))"

definition DocumentParsingUpstage_upload_response ::
  "host \<Rightarrow> nat \<Rightarrow> jsvalue \<Rightarrow> js_error + INodeExecutionData list" where
  "DocumentParsingUpstage_upload_response h i response =
     (let operation = stringParameter h ''operation'' i
      in if operation = ''sync'' then
           (let returnMode = stringParameter h ''returnMode'' i;
                content = get_prop response ''content''
            in if returnMode = ''content_html'' then
                 Inr [\<lparr>json = JObj [(''html'', nullish_or (get_prop content ''html'') (JStr []))],
                       binary = None, pairedItem = Some i\<rparr>]
               else if returnMode = ''content_markdown'' then
                 Inr [\<lparr>json = JObj
                         [(''markdown'', nullish_or (get_prop content ''markdown'') (JStr []))],
                       binary = None, pairedItem = Some i\<rparr>]
               else if returnMode = ''content_text'' then
                 Inr [\<lparr>json = JObj [(''text'', nullish_or (get_prop content ''text'') (JStr []))],
                       binary = None, pairedItem = Some i\<rparr>]
               else if returnMode = ''elements'' then
                 Inr [\<lparr>json = JObj
                         [(''elements'', nullish_or (get_prop response ''elements'') (JArr []))],
                       binary = None, pairedItem = Some i\<rparr>]
               else
                 Inr [\<lparr>json = response, binary = None, pairedItem = Some i\<rparr>])
         else
           Inr [\<lparr>json = JObj [(''request_id'', get_prop response ''request_id''),
                              (''submitted'', JBool True)],
                 binary = None, pairedItem = Some i\<rparr>])"

definition DocumentParsingUpstage_try ::
  "runtime \<Rightarrow> host \<Rightarrow> INodeExecutionData list \<Rightarrow> nat \<Rightarrow> attempt" where
  "DocumentParsingUpstage_try rt h items i =
     (let operation = stringParameter h ''operation'' i
      in if operation = ''sync'' \<or> operation = ''asyncSubmit'' then
           with_request h i (DocumentParsingUpstage_upload_request rt h items i)
             (DocumentParsingUpstage_upload_response h i)
         else if operation = ''asyncGet'' then
           (let requestId = stringParameter h ''requestId'' i
            in with_request h i
                 (if requestId = [] then Inl (new_Error ''Request ID is required.'')
                  else Inr \<lparr>http_method = ''GET'',
                            url = ''https://api.upstage.ai/v1/document-digitization/requests/'' @
                                  encodeURIComponent rt requestId,
                            body = NoBody, headers = [], json_flag = False\<rparr>)
                 (\<lambda>response. Inr [\<lparr>json = response, binary = None, pairedItem = Some i\<rparr>]))
         else if operation = ''asyncList'' then
           with_request h i
             (Inr \<lparr>http_method = ''GET'',
                   url = ''https://api.upstage.ai/v1/document-digitization/requests'',
                   body = NoBody, headers = [], json_flag = False\<rparr>)
             (\<lambda>response. Inr [\<lparr>json = response, binary = None, pairedItem = Some i\<rparr>])
         else ([], Inr []))"

definition DocumentParsingUpstage_catch ::
  "runtime \<Rightarrow> host \<Rightarrow> nat \<Rightarrow> js_error \<Rightarrow> js_error + INodeExecutionData list" where
  "DocumentParsingUpstage_catch rt h i error =
     (if continueOnFail h then
        (let errorMessage = (if is_Error error then error_message error else ''Unknown error'');
             statusCode = numeric_statusCode error
         in Inr [\<lparr>json = JObj
                    [(''error'', JStr errorMessage),
                     (''statusCode'', statusCode),
                     (''timestamp'', JStr (toISOString_now rt i))],
                  binary = None, pairedItem = Some i\<rparr>])
      else Inl error)"

definition DocumentParsingUpstage_execute ::
  "runtime \<Rightarrow> host \<Rightarrow> INodeExecutionData list \<Rightarrow> (nat \<times> IHttpRequestOptions) list \<times> outcome"
  where
  "DocumentParsingUpstage_execute rt h items =
     run_loop (DocumentParsingUpstage_try rt h items) (DocumentParsingUpstage_catch rt h)
       (length items)"

section \<open>Information extraction adapter\<close>

text \<open>\<^verbatim>\<open>JSON.parse(v)\<close> converts its argument to a string first.\<close>

definition js_string :: "runtime \<Rightarrow> jsvalue \<Rightarrow> string" where
  "js_string rt v = (case v of JStr s \<Rightarrow> s | other \<Rightarrow> ToString rt other)"

definition parses :: "runtime \<Rightarrow> string \<Rightarrow> bool" where
  "parses rt s = (case JSON_parse rt s of Inl msg \<Rightarrow> False | Inr v \<Rightarrow> True)"

text \<open>
  Schema Only mode: the parameter is parsed when it is a string and taken as it is when it
  is an object; the \<^verbatim>\<open>catch\<close> wraps the message of whatever the \<^verbatim>\<open>try\<close> threw.
\<close>

definition schema_only_format :: "runtime \<Rightarrow> host \<Rightarrow> nat \<Rightarrow> js_error + jsvalue" where
  "schema_only_format rt h i =
     (let schemaName = stringParameter h ''schemaName'' i;
          schemaRaw = rawParameter h ''json_schema'' i
      in case (case schemaRaw of
                 JStr s \<Rightarrow>
                   (let cleanedJson = replace_each invisible [] (trim s)
                    in JSON_parse rt cleanedJson)
               | other \<Rightarrow>
                   if is_object other then Inr other else Inl ''Invalid schema data type'') of
           Inl msg \<Rightarrow> Inl (new_Error (''Invalid JSON schema provided: '' @ msg))
         | Inr schemaObj \<Rightarrow>
             Inr (JObj [(''type'', JStr ''json_schema''),
                        (''json_schema'', JObj [(''name'', JStr schemaName),
                                                (''schema'', schemaObj)])]))"

text \<open>
  Full Response Format mode. A string is cleaned and parsed; when that fails it is
  compressed, handed to the repair and parsed again, and this time the failure is thrown.
\<close>

definition full_response_format :: "runtime \<Rightarrow> host \<Rightarrow> nat \<Rightarrow> js_error + jsvalue" where
  "full_response_format rt h i =
     (let fullResponseRaw = rawParameter h ''fullResponseFormat'' i
      in case (case fullResponseRaw of
                 JStr s \<Rightarrow>
                   (let cleanedJson =
                          replace_each [[CHR 0x0D]] [CHR 0x0A]
                            (replace_each [CRLF] [CHR 0x0A]
                               (replace_each invisible [] (trim s)))
                    in case (case JSON_parse rt cleanedJson of
                               Inr parsedJson \<Rightarrow> Inr parsedJson
                             | Inl firstError \<Rightarrow>
                                 (let cleanedJson =
                                        trim (drop_spaces_after (drop_spaces_before
                                          (collapse_spaces
                                             (replace_each [[CHR 0x0A]] [] cleanedJson))));
                                      cleanedJson =
                                        validateAndFixJsonStructure (parses rt) cleanedJson
                                  in JSON_parse rt cleanedJson)) of
                         Inl msg \<Rightarrow> Inl msg
                       | Inr parsedJson \<Rightarrow>
                           if \<not> is_object parsedJson
                           then Inl ''Parsed result is not a valid JSON object''
                           else if \<not> truthy (get_prop parsedJson ''type'')
                                   \<or> \<not> truthy (get_prop parsedJson ''json_schema'')
                           then Inl ''Missing required fields: type or json_schema''
                           else Inr parsedJson)
               | other \<Rightarrow>
                   if is_object other then Inr other
                   else Inl ''Invalid response format data type'') of
           Inl msg \<Rightarrow> Inl (new_Error (''Invalid full response format JSON provided: '' @ msg))
         | Inr responseFormat \<Rightarrow> Inr responseFormat)"

text \<open>\<^verbatim>\<open>dataUrlOrHttp\<close>, built the same way in both operations.\<close>

definition dataUrlOrHttp ::
  "runtime \<Rightarrow> host \<Rightarrow> INodeExecutionData list \<Rightarrow> nat \<Rightarrow> js_error + string" where
  "dataUrlOrHttp rt h items i =
     (let inputType = stringParameter h ''inputType'' i
      in if inputType = ''binary'' then binary_data_url rt h items i
         else (let u = stringParameter h ''imageUrl'' i
               in if u = [] then Inl (new_Error ''Image URL is required.'') else Inr u))"

definition extract_request ::
  "runtime \<Rightarrow> host \<Rightarrow> INodeExecutionData list \<Rightarrow> nat \<Rightarrow> js_error + IHttpRequestOptions" where
  "extract_request rt h items i =
     (let model = stringParameter h ''model'' i;
          schemaInputType = stringParameter h ''schemaInputType'' i;
          pagesPerChunk = numberParameterOr h ''pagesPerChunk'' i 0
      in case (if schemaInputType = ''schema'' then schema_only_format rt h i
               else full_response_format rt h i) of
           Inl e \<Rightarrow> Inl e
         | Inr responseFormat \<Rightarrow>
             (case dataUrlOrHttp rt h items i of
                Inl e \<Rightarrow> Inl e
              | Inr u \<Rightarrow>
                  (let requestBody =
                         [(''model'', JStr model),
                          (''messages'',
                             JArr [JObj [(''role'', JStr ''user''),
                                         (''content'', image_url_content u)]]),
                          (''response_format'', responseFormat)] @
                         (if pagesPerChunk \<noteq> 0 \<and> pagesPerChunk > 0
                          then [(''chunking'', JObj [(''pages_per_chunk'', JNum pagesPerChunk)])]
                          else [])
                   in Inr \<lparr>http_method = ''POST'',
                           url = ''https://api.upstage.ai/v1/information-extraction'',
                           body = JsonBody (JObj requestBody),
                           headers = [], json_flag = True\<rparr>)))"

text \<open>
  \<^verbatim>\<open>content ? JSON.parse(content) : {}\<close> with the \<^verbatim>\<open>catch\<close> that keeps the text under
  \<^verbatim>\<open>_raw\<close>.
\<close>

definition parse_content :: "runtime \<Rightarrow> jsvalue \<Rightarrow> jsvalue" where
  "parse_content rt content =
     (if truthy content then
        (case JSON_parse rt (js_string rt content) of
           Inr v \<Rightarrow> v
         | Inl msg \<Rightarrow> JObj [(''_raw'', content)])
      else JObj [])"

definition message_content :: "jsvalue \<Rightarrow> jsvalue" where
  "message_content response =
     nullish_or (get_prop (get_prop (first_choice response) ''message'') ''content'') (JStr [])"

definition extract_response ::
  "runtime \<Rightarrow> host \<Rightarrow> nat \<Rightarrow> jsvalue \<Rightarrow> js_error + INodeExecutionData list" where
  "extract_response rt h i response =
     (let returnMode = stringParameter h ''returnMode'' i
      in if returnMode = ''full'' then
           Inr [\<lparr>json = response, binary = None, pairedItem = Some i\<rparr>]
         else
           (let content = message_content response;
                extracted = parse_content rt content
            in Inr [\<lparr>json = JObj
                       [(''extracted'', extracted),
                        (''model'', get_prop response ''model''),
                        (''usage'', get_prop response ''usage''),
                        (''full_response'', response)],
                     binary = None, pairedItem = Some i\<rparr>]))"

definition generate_schema_request ::
  "runtime \<Rightarrow> host \<Rightarrow> INodeExecutionData list \<Rightarrow> nat \<Rightarrow> js_error + IHttpRequestOptions" where
  "generate_schema_request rt h items i =
     (let model = stringParameter h ''model'' i;
          prompt = trim (stringParameterOr h ''prompt'' i [])
      in case dataUrlOrHttp rt h items i of
           Inl e \<Rightarrow> Inl e
         | Inr u \<Rightarrow>
             (let messages =
                    (if prompt \<noteq> []
                     then [JObj [(''role'', JStr ''user''), (''content'', JStr prompt)]] else []) @
                    [JObj [(''role'', JStr ''user''), (''content'', image_url_content u)]];
                  requestBody = JObj [(''model'', JStr model), (''messages'', JArr messages)]
              in Inr \<lparr>http_method = ''POST'',
                      url = ''https://api.upstage.ai/v1/information-extraction/schema-generation'',
                      body = JsonBody requestBody,
                      headers = [], json_flag = True\<rparr>))"

text \<open>\<^verbatim>\<open>if (items[i].binary) out.binary = items[i].binary\<close> on an output item.\<close>

definition passthrough :: "INodeExecutionData \<Rightarrow> INodeExecutionData \<Rightarrow> INodeExecutionData" where
  "passthrough item out = (case binary item of None \<Rightarrow> out | Some b \<Rightarrow> out\<lparr>binary := Some b\<rparr>)"

definition generate_schema_response ::
  "runtime \<Rightarrow> host \<Rightarrow> INodeExecutionData list \<Rightarrow> nat \<Rightarrow> jsvalue \<Rightarrow>
   js_error + INodeExecutionData list" where
  "generate_schema_response rt h items i response =
     (let returnMode = stringParameter h ''returnMode'' i
      in if returnMode = ''full'' then
           Inr [passthrough (items ! i) \<lparr>json = response, binary = None, pairedItem = Some i\<rparr>]
         else
           (let contentStr = message_content response;
                schemaObj = parse_content rt contentStr
            in Inr [passthrough (items ! i)
                     \<lparr>json = JObj
                        [(''schema_type'', nullish_or (get_prop schemaObj ''type'') JNull),
                         (''json_schema'', nullish_or (get_prop schemaObj ''json_schema'') JNull),
                         (''raw'', schemaObj),
                         (''model'', get_prop response ''model''),
                         (''usage'', get_prop response ''usage'')],
                      binary = None, pairedItem = Some i\<rparr>]))"

definition InformationExtractionUpstage_try ::
  "runtime \<Rightarrow> host \<Rightarrow> INodeExecutionData list \<Rightarrow> nat \<Rightarrow> attempt" where
  "InformationExtractionUpstage_try rt h items i =
     (let operation = stringParameter h ''operation'' i
      in if operation = ''extract'' then
           with_request h i (extract_request rt h items i) (extract_response rt h i)
         else
           with_request h i (generate_schema_request rt h items i)
             (generate_schema_response rt h items i))"

definition InformationExtractionUpstage_execute ::
  "runtime \<Rightarrow> host \<Rightarrow> INodeExecutionData list \<Rightarrow> (nat \<times> IHttpRequestOptions) list \<times> outcome"
  where
  "InformationExtractionUpstage_execute rt h items =
     run_loop (InformationExtractionUpstage_try rt h items) (error_item_or_rethrow h)
       (length items)"

section \<open>The four adapters side by side\<close>

datatype adapter = OCR | Parsing | Extraction | Classification

fun try_block :: "adapter \<Rightarrow> runtime \<Rightarrow> host \<Rightarrow> INodeExecutionData list \<Rightarrow> nat \<Rightarrow> attempt" where
  "try_block OCR = DocumentOCRUpstage_try"
| "try_block Parsing = DocumentParsingUpstage_try"
| "try_block Extraction = InformationExtractionUpstage_try"
| "try_block Classification = DocumentClassificationUpstage_try"

fun catch_block ::
  "adapter \<Rightarrow> runtime \<Rightarrow> host \<Rightarrow> nat \<Rightarrow> js_error \<Rightarrow> js_error + INodeExecutionData list" where
  "catch_block OCR rt = DocumentOCRUpstage_catch rt"
| "catch_block Parsing rt = DocumentParsingUpstage_catch rt"
| "catch_block Extraction rt = error_item_or_rethrow"
| "catch_block Classification rt = error_item_or_rethrow"

fun execute ::
  "adapter \<Rightarrow> runtime \<Rightarrow> host \<Rightarrow> INodeExecutionData list \<Rightarrow>
   (nat \<times> IHttpRequestOptions) list \<times> outcome" where
  "execute OCR = DocumentOCRUpstage_execute"
| "execute Parsing = DocumentParsingUpstage_execute"
| "execute Extraction = InformationExtractionUpstage_execute"
| "execute Classification = DocumentClassificationUpstage_execute"

text \<open>What the pass over one item pushes, and what it throws out of the loop.\<close>

definition item_pushed ::
  "(nat \<Rightarrow> attempt) \<Rightarrow> (nat \<Rightarrow> js_error \<Rightarrow> js_error + INodeExecutionData list) \<Rightarrow>
   nat \<Rightarrow> INodeExecutionData list" where
  "item_pushed try catch i =
     (case try i of
        (reqs, Inr pushed) \<Rightarrow> pushed
      | (reqs, Inl error) \<Rightarrow> (case catch i error of Inr pushed \<Rightarrow> pushed | Inl thrown \<Rightarrow> []))"

definition item_thrown ::
  "(nat \<Rightarrow> attempt) \<Rightarrow> (nat \<Rightarrow> js_error \<Rightarrow> js_error + INodeExecutionData list) \<Rightarrow>
   nat \<Rightarrow> js_error option" where
  "item_thrown try catch i =
     (case try i of
        (reqs, Inr pushed) \<Rightarrow> None
      | (reqs, Inl error) \<Rightarrow> (case catch i error of Inr pushed \<Rightarrow> None | Inl thrown \<Rightarrow> Some thrown))"

text \<open>The items one adapter pushes for item \<open>i\<close>, and the requests it issues for it.\<close>

definition outputs_for ::
  "adapter \<Rightarrow> runtime \<Rightarrow> host \<Rightarrow> INodeExecutionData list \<Rightarrow> nat \<Rightarrow> INodeExecutionData list"
  where
  "outputs_for a rt h items i = item_pushed (try_block a rt h items) (catch_block a rt h) i"

definition requests_for ::
  "adapter \<Rightarrow> runtime \<Rightarrow> host \<Rightarrow> INodeExecutionData list \<Rightarrow> nat \<Rightarrow>
   (nat \<times> IHttpRequestOptions) list" where
  "requests_for a rt h items i = fst (try_block a rt h items i)"

definition succeeds :: "attempt \<Rightarrow> bool" where
  "succeeds att = (case snd att of Inr pushed \<Rightarrow> True | Inl error \<Rightarrow> False)"

text \<open>The values of the operation parameter that the parsing adapter declares.\<close>

definition declared_operation :: "string \<Rightarrow> bool" where
  "declared_operation operation =
     (operation = ''sync'' \<or> operation = ''asyncSubmit'' \<or> operation = ''asyncGet''
      \<or> operation = ''asyncList'')"

section \<open>A sample host\<close>

text \<open>
  A runtime and hosts on which the adapters are run: every parameter is read from a table
  by name and item index, every buffer is the same four bytes, and the HTTP call answers
  by item index.
\<close>

definition sample_runtime :: runtime where
  "sample_runtime =
     \<lparr>JSON_parse = (\<lambda>s. if json_wellformed s then Inr (JObj []) else Inl ''Unexpected token''),
      JSON_stringify = (\<lambda>v. ''[]''),
      toBase64 = (\<lambda>b. ''REFUQQ==''),
      encodeURIComponent = (\<lambda>s. s),
      toISOString_now = (\<lambda>i. ''2025-01-01T00:00:00.000Z''),
      random_base36 = (\<lambda>i. ''k3x9q''),
      TypeError_message = (\<lambda>what. what),
      ToString = (\<lambda>v. ''[object Object]'')\<rparr>"

definition sample_host ::
  "bool \<Rightarrow> (string \<Rightarrow> nat \<Rightarrow> string) \<Rightarrow> (nat \<Rightarrow> js_error + jsvalue) \<Rightarrow> host" where
  "sample_host cof params responses =
     \<lparr>continueOnFail = cof,
      stringParameter = params,
      stringParameterOr = (\<lambda>name i fallback. fallback),
      booleanParameterOr = (\<lambda>name i fallback. fallback),
      numberParameterOr = (\<lambda>name i fallback. fallback),
      stringsParameterOr = (\<lambda>name i fallback. fallback),
      rawParameter = (\<lambda>name i. JObj [(''values'', JArr [])]),
      getBinaryDataBuffer = (\<lambda>i name. Inr ''DATA''),
      httpRequestWithAuthentication = (\<lambda>i req. responses i)\<rparr>"

definition sample_item :: INodeExecutionData where
  "sample_item =
     \<lparr>json = JObj [],
      binary = Some [(''data'', \<lparr>fileName = Some ''scan.png'', mimeType = Some ''image/png'',
                                fileSize = JStr ''4 B''\<rparr>)],
      pairedItem = None\<rparr>"

text \<open>Parameter tables: a constant operation, and the settings of a classification by URL.\<close>

definition operation_params :: "string \<Rightarrow> string \<Rightarrow> nat \<Rightarrow> string" where
  "operation_params operation name i = (if name = ''operation'' then operation else [])"

definition url_params :: "(nat \<Rightarrow> string) \<Rightarrow> string \<Rightarrow> nat \<Rightarrow> string" where
  "url_params urls name i =
     (if name = ''inputType'' then ''url''
      else if name = ''imageUrl'' then urls i
      else if name = ''schemaInputType'' then ''form''
      else if name = ''returnMode'' then ''classification''
      else if name = ''model'' then ''document-classify''
      else if name = ''schemaName'' then ''document-classify''
      else [])"

definition ocr_params :: "string \<Rightarrow> nat \<Rightarrow> string" where
  "ocr_params name i =
     (if name = ''binaryPropertyName'' then ''data''
      else if name = ''model'' then ''ocr''
      else if name = ''returnMode'' then ''text''
      else [])"

definition choice_response :: "string \<Rightarrow> jsvalue" where
  "choice_response reason =
     JObj [(''choices'',
            JArr [JObj [(''message'', JObj [(''content'', JStr ''invoice'')]),
                        (''finish_reason'', JStr reason)]])]"

definition list_request :: IHttpRequestOptions where
  "list_request = \<lparr>http_method = ''GET'',
                   url = ''https://api.upstage.ai/v1/document-digitization/requests'',
                   body = NoBody, headers = [], json_flag = False\<rparr>"

text \<open>Three items of which the second has no image URL, classified or sent for a schema.\<close>

definition sample_urls :: "nat \<Rightarrow> string" where
  "sample_urls i = (if i = 1 then [] else ''https://example.com/a.png'')"

definition three_items :: "INodeExecutionData list" where
  "three_items = [sample_item, sample_item, sample_item]"

definition classify_host :: "bool \<Rightarrow> string \<Rightarrow> host" where
  "classify_host cof reason =
     sample_host cof (url_params sample_urls) (\<lambda>i. Inr (choice_response reason))"

definition schema_params :: "string \<Rightarrow> nat \<Rightarrow> string" where
  "schema_params name i =
     (if name = ''operation'' then ''schema''
      else if name = ''inputType'' then ''url''
      else if name = ''imageUrl'' then sample_urls i
      else if name = ''returnMode'' then ''full''
      else if name = ''model'' then ''information-extract''
      else [])"

definition schema_host :: "bool \<Rightarrow> host" where
  "schema_host cof = sample_host cof schema_params (\<lambda>i. Inr (JObj [(''id'', JNum (int i))]))"

definition ocr_host :: "jsvalue \<Rightarrow> host" where
  "ocr_host response = sample_host False ocr_params (\<lambda>i. Inr response)"

definition missing_url_message :: string where
  "missing_url_message = ''Image URL is required when input type is URL.''"

definition invoice_item :: "string \<Rightarrow> nat \<Rightarrow> INodeExecutionData" where
  "invoice_item confidence i =
     \<lparr>json = JObj [(''classification'', JStr ''invoice''), (''confidence'', JStr confidence)],
      binary = None, pairedItem = Some i\<rparr>"

definition error_item :: "string \<Rightarrow> nat \<Rightarrow> INodeExecutionData" where
  "error_item msg i = \<lparr>json = JObj [(''error'', JStr msg)], binary = None, pairedItem = Some i\<rparr>"

text \<open>Two files to upload: a plain one, and one with a double quote in its name.\<close>

definition plain_file :: upload_file where
  "plain_file = \<lparr>buffer = ''DATA'', filename = ''scan.png'', contentType = ''image/png''\<rparr>"

definition quoted_file :: upload_file where
  "quoted_file = \<lparr>buffer = ''DATA'', filename = ''a'' @ DQUOTE # ''b.png'',
                   contentType = ''image/png''\<rparr>"

section \<open>Properties of the item loop\<close>

lemma for_items_step:
  "for_items try catch (i # rest) st =
     (case item_thrown try catch i of
        None \<Rightarrow>
          for_items try catch rest
            \<lparr>returnData = returnData st @ item_pushed try catch i,
             requests = requests st @ fst (try i)\<rparr>
      | Some thrown \<Rightarrow>
          (\<lparr>returnData = returnData st, requests = requests st @ fst (try i)\<rparr>, Some thrown))"
  by (cases "try i") (auto simp: item_thrown_def item_pushed_def split: sum.splits)

declare for_items.simps(2) [simp del]

lemma for_items_completes:
  assumes "\<forall>i \<in> set xs. item_thrown try catch i = None"
  shows "for_items try catch xs st =
           (\<lparr>returnData = returnData st @ concat (map (item_pushed try catch) xs),
             requests = requests st @ concat (map (\<lambda>i. fst (try i)) xs)\<rparr>, None)"
  using assms
proof (induction xs arbitrary: st)
  case Nil
  then show ?case by simp
next
  case (Cons i rest)
  then have "item_thrown try catch i = None"
    and "\<forall>j \<in> set rest. item_thrown try catch j = None" by simp_all
  then show ?case
    by (simp only: for_items_step Cons.IH) simp
qed

lemma for_items_aborts:
  assumes "\<forall>j \<in> set pre. item_thrown try catch j = None"
    and "item_thrown try catch i = Some thrown"
  shows "for_items try catch (pre @ i # post) st =
           (\<lparr>returnData = returnData st @ concat (map (item_pushed try catch) pre),
             requests = requests st @ concat (map (\<lambda>j. fst (try j)) pre) @ fst (try i)\<rparr>,
            Some thrown)"
  using assms
proof (induction pre arbitrary: st)
  case Nil
  then show ?case by (simp add: for_items_step)
next
  case (Cons j pre)
  then have "item_thrown try catch j = None"
    and "\<forall>k \<in> set pre. item_thrown try catch k = None" by simp_all
  with Cons.prems(2) show ?case
    by (simp add: for_items_step Cons.IH)
qed

lemma for_items_None_all:
  assumes "for_items try catch xs st = (st', None)"
  shows "\<forall>i \<in> set xs. item_thrown try catch i = None"
  using assms
proof (induction xs arbitrary: st)
  case Nil
  then show ?case by simp
next
  case (Cons i rest)
  show ?case
  proof (cases "item_thrown try catch i")
    case None
    with Cons.prems have "for_items try catch rest
        \<lparr>returnData = returnData st @ item_pushed try catch i,
         requests = requests st @ fst (try i)\<rparr> = (st', None)"
      by (simp add: for_items_step)
    from Cons.IH [OF this] None show ?thesis by simp
  next
    case (Some thrown)
    with Cons.prems show ?thesis by (simp add: for_items_step)
  qed
qed

lemma run_loop_completes:
  assumes "\<forall>i < n. item_thrown try catch i = None"
  shows "run_loop try catch n =
           (concat (map (\<lambda>i. fst (try i)) [0..<n]),
            Returned (concat (map (item_pushed try catch) [0..<n])))"
proof -
  from assms have "\<forall>i \<in> set [0..<n]. item_thrown try catch i = None" by simp
  from for_items_completes [OF this] show ?thesis
    by (simp add: run_loop_def)
qed

lemma run_loop_Returned:
  assumes "run_loop try catch n = (log, Returned outs)"
  shows "(\<forall>i < n. item_thrown try catch i = None)
         \<and> outs = concat (map (item_pushed try catch) [0..<n])
         \<and> log = concat (map (\<lambda>i. fst (try i)) [0..<n])"
proof -
  obtain st r where fi: "for_items try catch [0..<n] \<lparr>returnData = [], requests = []\<rparr> = (st, r)"
    by (cases "for_items try catch [0..<n] \<lparr>returnData = [], requests = []\<rparr>") auto
  with assms have r: "r = None"
    by (cases r) (simp_all add: run_loop_def)
  from for_items_None_all [OF fi [unfolded r]]
  have all: "\<forall>i < n. item_thrown try catch i = None" by simp
  from run_loop_completes [OF all] assms show ?thesis
    using all by simp
qed

lemma run_loop_aborts:
  assumes "i < n"
    and "\<forall>j < i. item_thrown try catch j = None"
    and "item_thrown try catch i = Some thrown"
  shows "run_loop try catch n =
           (concat (map (\<lambda>j. fst (try j)) [0..<i]) @ fst (try i), Threw thrown)"
proof -
  from assms(1) have split: "[0..<n] = [0..<i] @ i # [Suc i..<n]"
    by (metis append_Cons le_add1 less_imp_add_positive upt_add_eq_append upt_rec zero_le
        less_or_eq_imp_le upt_conv_Cons)
  from assms(2) have "\<forall>j \<in> set [0..<i]. item_thrown try catch j = None" by simp
  from for_items_aborts [OF this assms(3)] show ?thesis
    by (simp add: run_loop_def split)
qed

lemma concat_singletons:
  assumes "\<forall>i \<in> set xs. map g (f i) = [k i]"
  shows "map g (concat (map f xs)) = map k xs"
  using assms by (induction xs) simp_all

lemma execute_unfold:
  "execute a rt h items = run_loop (try_block a rt h items) (catch_block a rt h) (length items)"
  by (cases a)
    (simp_all add: DocumentOCRUpstage_execute_def DocumentParsingUpstage_execute_def
      InformationExtractionUpstage_execute_def DocumentClassificationUpstage_execute_def)

section \<open>Properties of the adapters\<close>

lemma with_request_Inr:
  assumes "with_request h i ro k = (reqs, Inr pushed)"
  shows "\<exists>req response. ro = Inr req \<and> reqs = [(i, req)]
           \<and> httpRequestWithAuthentication h i req = Inr response \<and> k response = Inr pushed"
  using assms by (auto simp: with_request_def split: sum.splits)

lemma with_request_tagged:
  "list_all (\<lambda>p. fst p = i) (fst (with_request h i ro k))"
  by (auto simp: with_request_def split: sum.splits)

lemma with_request_paired:
  assumes "with_request h i ro k = (reqs, Inr pushed)"
    and "\<And>response. k response = Inr pushed \<Longrightarrow> map pairedItem pushed = [Some i]"
  shows "map pairedItem pushed = [Some i]"
  using with_request_Inr [OF assms(1)] assms(2) by blast

lemma OCR_response_paired:
  assumes "DocumentOCRUpstage_response rt h i response = Inr pushed"
  shows "map pairedItem pushed = [Some i]"
  using assms
  by (auto simp: DocumentOCRUpstage_response_def Let_def split: if_splits sum.splits)

lemma Classification_response_paired:
  assumes "DocumentClassificationUpstage_response h i response = Inr pushed"
  shows "map pairedItem pushed = [Some i]"
  using assms
  by (auto simp: DocumentClassificationUpstage_response_def Let_def split: if_splits)

lemma Parsing_upload_response_paired:
  assumes "DocumentParsingUpstage_upload_response h i response = Inr pushed"
  shows "map pairedItem pushed = [Some i]"
  using assms
  by (auto simp: DocumentParsingUpstage_upload_response_def Let_def split: if_splits)

lemma passthrough_paired: "pairedItem (passthrough item out) = pairedItem out"
  by (simp add: passthrough_def split: option.splits)

lemma extract_response_paired:
  assumes "extract_response rt h i response = Inr pushed"
  shows "map pairedItem pushed = [Some i]"
  using assms
  by (auto simp: extract_response_def Let_def split: if_splits)

lemma generate_schema_response_paired:
  assumes "generate_schema_response rt h items i response = Inr pushed"
  shows "map pairedItem pushed = [Some i]"
  using assms
  by (auto simp: generate_schema_response_def Let_def passthrough_paired split: if_splits)

lemma Parsing_try_undeclared:
  assumes "\<not> declared_operation (stringParameter h ''operation'' i)"
  shows "DocumentParsingUpstage_try rt h items i = ([], Inr [])"
  using assms by (simp add: DocumentParsingUpstage_try_def declared_operation_def Let_def)

lemma Parsing_try_paired:
  assumes "DocumentParsingUpstage_try rt h items i = (reqs, Inr pushed)"
    and "declared_operation (stringParameter h ''operation'' i)"
  shows "map pairedItem pushed = [Some i]"
proof -
  let ?op = "stringParameter h ''operation'' i"
  consider "?op = ''sync'' \<or> ?op = ''asyncSubmit''" | "?op = ''asyncGet''" | "?op = ''asyncList''"
    using assms(2) by (auto simp: declared_operation_def)
  then show ?thesis
  proof cases
    case 1
    with assms(1) have "with_request h i (DocumentParsingUpstage_upload_request rt h items i)
             (DocumentParsingUpstage_upload_response h i) = (reqs, Inr pushed)"
      by (simp add: DocumentParsingUpstage_try_def Let_def)
    then show ?thesis
      by (rule with_request_paired) (rule Parsing_upload_response_paired)
  next
    case 2
    with assms(1) show ?thesis
      by (auto simp: DocumentParsingUpstage_try_def Let_def dest!: with_request_Inr)
  next
    case 3
    with assms(1) show ?thesis
      by (auto simp: DocumentParsingUpstage_try_def Let_def dest!: with_request_Inr)
  qed
qed

lemma try_block_paired:
  assumes "try_block a rt h items i = (reqs, Inr pushed)"
    and "a = Parsing \<longrightarrow> declared_operation (stringParameter h ''operation'' i)"
  shows "map pairedItem pushed = [Some i]"
proof (cases a)
  case OCR
  with assms(1) show ?thesis
    by (auto simp: DocumentOCRUpstage_try_def dest!: with_request_Inr OCR_response_paired)
next
  case Parsing
  with assms show ?thesis by (auto dest: Parsing_try_paired)
next
  case Extraction
  with assms(1) show ?thesis
    by (auto simp: InformationExtractionUpstage_try_def Let_def split: if_splits
        dest!: with_request_Inr extract_response_paired generate_schema_response_paired)
next
  case Classification
  with assms(1) show ?thesis
    by (auto simp: DocumentClassificationUpstage_try_def
        dest!: with_request_Inr Classification_response_paired)
qed

lemma catch_block_paired:
  assumes "catch_block a rt h i e = Inr pushed"
  shows "map pairedItem pushed = [Some i]"
  using assms
  by (cases a)
    (auto simp: DocumentOCRUpstage_catch_def DocumentParsingUpstage_catch_def
      error_item_or_rethrow_def Let_def split: if_splits)

lemma try_block_tagged:
  "list_all (\<lambda>p. fst p = i) (fst (try_block a rt h items i))"
  by (cases a)
    (simp_all add: DocumentOCRUpstage_try_def DocumentParsingUpstage_try_def
      InformationExtractionUpstage_try_def DocumentClassificationUpstage_try_def
      with_request_tagged Let_def)

lemma count_short:
  assumes "\<forall>j \<in> set xs. length (f j) \<le> 1" and "i \<in> set xs" and "f i = []"
  shows "length (concat (map f xs)) < length xs"
proof -
  have le: "length (concat (map f ys)) \<le> length (filter (\<lambda>j. f j \<noteq> []) ys)"
    if "\<forall>j \<in> set ys. length (f j) \<le> 1" for ys
    using that
  proof (induction ys)
    case Nil
    then show ?case by simp
  next
    case (Cons y ys)
    then have "length (f y) \<le> 1" by simp
    then have "length (f y) = (if f y = [] then 0 else 1)"
      by (cases "f y") auto
    with Cons show ?case by simp
  qed
  have "length (filter (\<lambda>j. f j \<noteq> []) xs) < length xs"
    using assms(2,3) by (intro length_filter_less [of i]) simp_all
  with le [OF assms(1)] show ?thesis by simp
qed

lemma item_pushed_paired:
  assumes "item_thrown (try_block a rt h items) (catch_block a rt h) i = None"
    and "a = Parsing \<longrightarrow> declared_operation (stringParameter h ''operation'' i)"
  shows "map pairedItem (outputs_for a rt h items i) = [Some i]"
proof (cases "try_block a rt h items i")
  case (Pair reqs res)
  show ?thesis
  proof (cases res)
    case (Inr pushed)
    with Pair have "try_block a rt h items i = (reqs, Inr pushed)" by simp
    from try_block_paired [OF this assms(2)] Pair Inr show ?thesis
      by (simp add: outputs_for_def item_pushed_def)
  next
    case (Inl e)
    with Pair assms(1) obtain pushed where c: "catch_block a rt h i e = Inr pushed"
      by (auto simp: item_thrown_def split: sum.splits)
    from catch_block_paired [OF c] Pair Inl c show ?thesis
      by (simp add: outputs_for_def item_pushed_def)
  qed
qed

lemma item_pushed_at_most_one:
  assumes "item_thrown (try_block a rt h items) (catch_block a rt h) i = None"
  shows "length (outputs_for a rt h items i) \<le> 1"
proof (cases "a = Parsing \<and> \<not> declared_operation (stringParameter h ''operation'' i)")
  case True
  then show ?thesis
    by (simp add: outputs_for_def item_pushed_def Parsing_try_undeclared)
next
  case False
  then have "a = Parsing \<longrightarrow> declared_operation (stringParameter h ''operation'' i)" by blast
  from item_pushed_paired [OF assms this]
  have "length (map pairedItem (outputs_for a rt h items i)) = 1" by simp
  then show ?thesis by simp
qed

lemma execute_Returned:
  assumes "execute a rt h items = (log, Returned outs)"
  shows "(\<forall>i < length items. item_thrown (try_block a rt h items) (catch_block a rt h) i = None)
         \<and> outs = concat (map (outputs_for a rt h items) [0..<length items])
         \<and> log = concat (map (requests_for a rt h items) [0..<length items])"
proof -
  from assms have "run_loop (try_block a rt h items) (catch_block a rt h) (length items)
                   = (log, Returned outs)"
    by (simp add: execute_unfold)
  from run_loop_Returned [OF this] show ?thesis
    by (simp add: outputs_for_def [abs_def] requests_for_def [abs_def])
qed

lemma upt2: "[0..<2] = [0, Suc 0]" by (simp add: upt_rec)

text \<open>
  C1, as stated: in every adapter a batch that ends without an exception yields one output
  item per input item. The parsing adapter has no branch for an operation outside its four
  declared values: for one item with the operation \<^verbatim>\<open>convert\<close> it returns an empty list.
\<close>

theorem C1_parsing_skips_counterexample:
  "execute Parsing sample_runtime
     (sample_host False (operation_params ''convert'') (\<lambda>i. Inr JNull)) [sample_item]
   = ([], Returned [])
   \<and> length ([] :: INodeExecutionData list) \<noteq> length [sample_item]"
  by (simp add: DocumentParsingUpstage_execute_def run_loop_def for_items.simps
        DocumentParsingUpstage_try_def sample_host_def operation_params_def Let_def)

text \<open>
  C1, amended. Whenever \<^verbatim>\<open>execute\<close> returns, the output list has one entry per input item,
  in order, and the entry at index \<open>i\<close> has \<^verbatim>\<open>pairedItem.item\<close> equal to \<open>i\<close>: in the OCR,
  the extraction and the classification adapter always, in the parsing adapter when the
  operation of every item is one of the four declared values.
\<close>

theorem C1_one_output_per_item:
  assumes "execute a rt h items = (log, Returned outs)"
    and "a = Parsing \<longrightarrow>
           list_all (\<lambda>i. declared_operation (stringParameter h ''operation'' i)) [0..<length items]"
  shows "length outs = length items \<and> map pairedItem outs = map Some [0..<length items]"
proof -
  from execute_Returned [OF assms(1)]
  have none: "\<forall>i < length items. item_thrown (try_block a rt h items) (catch_block a rt h) i = None"
    and outs: "outs = concat (map (outputs_for a rt h items) [0..<length items])"
    by simp_all
  have "\<forall>i \<in> set [0..<length items]. map pairedItem (outputs_for a rt h items i) = [Some i]"
  proof
    fix i assume "i \<in> set [0..<length items]"
    then have i: "i < length items" by simp
    with assms(2) have "a = Parsing \<longrightarrow> declared_operation (stringParameter h ''operation'' i)"
      by (auto simp: list_all_iff)
    with none i show "map pairedItem (outputs_for a rt h items i) = [Some i]"
      by (intro item_pushed_paired) simp_all
  qed
  then have m: "map pairedItem outs = map Some [0..<length items]"
    unfolding outs by (rule concat_singletons)
  have "length (map pairedItem outs) = length (map Some [0..<length items])"
    by (simp only: m)
  then have "length outs = length items" by simp
  with m show ?thesis by simp
qed

theorem C1_one_output_per_item_witness:
  "execute Parsing sample_runtime
     (sample_host False (operation_params ''asyncList'') (\<lambda>i. Inr (JNum (int i))))
     [sample_item, sample_item]
   = ([(0, list_request), (1, list_request)],
      Returned [\<lparr>json = JNum 0, binary = None, pairedItem = Some 0\<rparr>,
                \<lparr>json = JNum 1, binary = None, pairedItem = Some 1\<rparr>])
   \<and> list_all (\<lambda>i. declared_operation
         (stringParameter (sample_host False (operation_params ''asyncList'')
            (\<lambda>i. Inr (JNum (int i)))) ''operation'' i)) [0..<length [sample_item, sample_item]]
   \<and> length [\<lparr>json = JNum 0, binary = None, pairedItem = Some 0\<rparr>,
              \<lparr>json = JNum 1, binary = None, pairedItem = Some 1\<rparr>]
       = length [sample_item, sample_item]
   \<and> map pairedItem [\<lparr>json = JNum 0, binary = None, pairedItem = Some 0\<rparr>,
                      \<lparr>json = JNum 1, binary = None, pairedItem = Some 1\<rparr>]
       = map Some [0..<length [sample_item, sample_item]]"
proof -
  let ?h = "sample_host False (operation_params ''asyncList'') (\<lambda>i. Inr (JNum (int i)))"
  let ?items = "[sample_item, sample_item]"
  let ?outs = "[\<lparr>json = JNum 0, binary = None, pairedItem = Some 0\<rparr>,
                \<lparr>json = JNum 1, binary = None, pairedItem = Some 1\<rparr>]"
  have e: "execute Parsing sample_runtime ?h ?items
           = ([(0, list_request), (1, list_request)], Returned ?outs)"
    by (simp add: DocumentParsingUpstage_execute_def run_loop_def for_items.simps upt2
        DocumentParsingUpstage_try_def sample_host_def operation_params_def Let_def
        with_request_def list_request_def)
  have d: "list_all (\<lambda>i. declared_operation (stringParameter ?h ''operation'' i))
             [0..<length ?items]"
    by (simp add: upt2 sample_host_def operation_params_def declared_operation_def)
  then have d': "Parsing = Parsing \<longrightarrow>
      list_all (\<lambda>i. declared_operation (stringParameter ?h ''operation'' i)) [0..<length ?items]"
    by simp
  from e d C1_one_output_per_item [OF e d'] show ?thesis by simp
qed

text \<open>
  C10. In the parsing adapter an item whose operation is none of \<^verbatim>\<open>sync\<close>,
  \<^verbatim>\<open>asyncSubmit\<close>, \<^verbatim>\<open>asyncGet\<close> and \<^verbatim>\<open>asyncList\<close> issues no request, pushes no output item
  and throws nothing; a batch with such an item that returns has fewer outputs than inputs.
\<close>

theorem C10_undeclared_operation_skipped:
  assumes "i < length items"
    and "\<not> declared_operation (stringParameter h ''operation'' i)"
    and "execute Parsing rt h items = (log, Returned outs)"
  shows "DocumentParsingUpstage_try rt h items i = ([], Inr [])
         \<and> outputs_for Parsing rt h items i = []
         \<and> length outs < length items"
proof -
  have t: "DocumentParsingUpstage_try rt h items i = ([], Inr [])"
    using assms(2) by (rule Parsing_try_undeclared)
  then have o: "outputs_for Parsing rt h items i = []"
    by (simp add: outputs_for_def item_pushed_def)
  from execute_Returned [OF assms(3)]
  have none: "\<forall>j < length items.
                item_thrown (try_block Parsing rt h items) (catch_block Parsing rt h) j = None"
    and outs: "outs = concat (map (outputs_for Parsing rt h items) [0..<length items])"
    by simp_all
  have "\<forall>j \<in> set [0..<length items]. length (outputs_for Parsing rt h items j) \<le> 1"
    using none item_pushed_at_most_one [of Parsing rt h items] by auto
  moreover have "i \<in> set [0..<length items]" using assms(1) by simp
  ultimately have "length (concat (map (outputs_for Parsing rt h items) [0..<length items]))
                   < length [0..<length items]"
    using o by (rule count_short)
  with t o outs show ?thesis by simp
qed

theorem C10_undeclared_operation_skipped_witness:
  "0 < length [sample_item]
   \<and> \<not> declared_operation
         (stringParameter (sample_host False (operation_params ''convert'') (\<lambda>i. Inr JNull))
            ''operation'' 0)
   \<and> execute Parsing sample_runtime
        (sample_host False (operation_params ''convert'') (\<lambda>i. Inr JNull)) [sample_item]
      = ([], Returned [])
   \<and> DocumentParsingUpstage_try sample_runtime
        (sample_host False (operation_params ''convert'') (\<lambda>i. Inr JNull)) [sample_item] 0
      = ([], Inr [])
   \<and> length ([] :: INodeExecutionData list) < length [sample_item]"
proof -
  let ?h = "sample_host False (operation_params ''convert'') (\<lambda>i. Inr JNull)"
  have i: "0 < length [sample_item]" by simp
  have u: "\<not> declared_operation (stringParameter ?h ''operation'' 0)"
    by (simp add: sample_host_def operation_params_def declared_operation_def)
  have e: "execute Parsing sample_runtime ?h [sample_item] = ([], Returned [])"
    by (simp add: DocumentParsingUpstage_execute_def run_loop_def for_items.simps
        DocumentParsingUpstage_try_def sample_host_def operation_params_def Let_def)
  from i u e C10_undeclared_operation_skipped [OF i u e] show ?thesis by simp
qed

lemma catch_block_continue:
  assumes "continueOnFail h"
  shows "\<exists>out. catch_block a rt h i e = Inr [out]"
  using assms
  by (cases a)
    (simp_all add: DocumentOCRUpstage_catch_def DocumentParsingUpstage_catch_def
      error_item_or_rethrow_def Let_def)

lemma item_thrown_continue:
  assumes "continueOnFail h"
  shows "item_thrown (try_block a rt h items) (catch_block a rt h) i = None"
proof (cases "try_block a rt h items i")
  case (Pair reqs res)
  show ?thesis
  proof (cases res)
    case (Inr pushed)
    with Pair show ?thesis by (simp add: item_thrown_def)
  next
    case (Inl e)
    from catch_block_continue [OF assms, of a rt i e] Pair Inl show ?thesis
      by (auto simp: item_thrown_def)
  qed
qed

lemma execute_continue:
  assumes "continueOnFail h"
  shows "execute a rt h items =
           (concat (map (requests_for a rt h items) [0..<length items]),
            Returned (concat (map (outputs_for a rt h items) [0..<length items])))"
proof -
  have "\<forall>i < length items. item_thrown (try_block a rt h items) (catch_block a rt h) i = None"
    using assms by (simp add: item_thrown_continue)
  from run_loop_completes [OF this] show ?thesis
    by (simp add: execute_unfold outputs_for_def [abs_def] requests_for_def [abs_def])
qed

lemma catch_block_error_field:
  assumes "continueOnFail h" and "is_Error e" and "message e = Some m"
  shows "\<exists>out. catch_block a rt h i e = Inr [out] \<and> pairedItem out = Some i
           \<and> get_prop (json out) ''error''
               = JStr (if m = [] \<and> (a = Extraction \<or> a = Classification)
                       then ''Unknown error'' else m)"
  using assms
  by (cases a)
    (simp_all add: DocumentOCRUpstage_catch_def DocumentParsingUpstage_catch_def
      error_item_or_rethrow_def Let_def error_message_def message_or_unknown_def)

lemma catch_block_rethrow:
  assumes "\<not> continueOnFail h" and "is_Error e" and "message e = Some m"
  shows "catch_block a rt h i e =
           Inl (if a = OCR
                then new_Error (''Upstage Document OCR failed for item '' @ string_of_nat i @
                                '': '' @ m)
                else e)"
  using assms
  by (cases a)
    (simp_all add: DocumentOCRUpstage_catch_def DocumentParsingUpstage_catch_def
      error_item_or_rethrow_def Let_def error_message_def)

lemma succeeds_not_thrown:
  assumes "succeeds (try i)"
  shows "item_thrown try catch i = None"
  using assms by (cases "try i") (auto simp: succeeds_def item_thrown_def split: sum.splits)

lemma tagged_up_to:
  assumes "\<forall>j \<in> set js. list_all (\<lambda>p. fst p = j) (f j) \<and> j \<le> i"
  shows "list_all (\<lambda>p. fst p \<le> i) (concat (map f js))"
  using assms by (induction js) (auto simp: list_all_iff)

text \<open>
  C2. Let the \<^verbatim>\<open>try\<close> block of item \<open>i\<close> throw an \<^verbatim>\<open>Error\<close> with message \<open>m\<close>. With
  continue-on-fail set, \<^verbatim>\<open>execute\<close> returns: its outputs and requests are those of all
  items in order, and item \<open>i\<close> contributes one item, paired with \<open>i\<close>, whose \<^verbatim>\<open>error\<close>
  field is \<open>m\<close> (the extraction and the classification adapter write
  \<^verbatim>\<open>Unknown error\<close> for an empty message). With the flag not set, and every earlier item
  processed without a throw, \<^verbatim>\<open>execute\<close> throws: the error itself, in the OCR adapter a
  new error whose message names the item and ends in \<open>m\<close>; the requests made are those of
  the items before \<open>i\<close> and of \<open>i\<close>, none for a later item.
\<close>

theorem C2_error_item_or_abort:
  assumes "i < length items"
    and "try_block a rt h items i = (reqs, Inl e)"
    and "is_Error e" and "message e = Some m"
  shows "(continueOnFail h \<longrightarrow>
            execute a rt h items =
              (concat (map (requests_for a rt h items) [0..<length items]),
               Returned (concat (map (outputs_for a rt h items) [0..<length items])))
            \<and> map pairedItem (outputs_for a rt h items i) = [Some i]
            \<and> map (\<lambda>out. get_prop (json out) ''error'') (outputs_for a rt h items i)
                = [JStr (if m = [] \<and> (a = Extraction \<or> a = Classification)
                         then ''Unknown error'' else m)])
       \<and> (\<not> continueOnFail h \<and> list_all (\<lambda>j. succeeds (try_block a rt h items j)) [0..<i] \<longrightarrow>
            execute a rt h items =
              (concat (map (requests_for a rt h items) [0..<i]) @ reqs,
               Threw (if a = OCR
                      then new_Error (''Upstage Document OCR failed for item '' @
                                      string_of_nat i @ '': '' @ m)
                      else e))
            \<and> list_all (\<lambda>p. fst p \<le> i) (fst (execute a rt h items)))"
proof (intro conjI impI)
  assume c: "continueOnFail h"
  show "execute a rt h items =
          (concat (map (requests_for a rt h items) [0..<length items]),
           Returned (concat (map (outputs_for a rt h items) [0..<length items])))"
    using c by (rule execute_continue)
  from catch_block_error_field [OF c assms(3,4), of a rt i]
  obtain out where out: "catch_block a rt h i e = Inr [out]" "pairedItem out = Some i"
    "get_prop (json out) ''error''
       = JStr (if m = [] \<and> (a = Extraction \<or> a = Classification) then ''Unknown error'' else m)"
    by blast
  have o: "outputs_for a rt h items i = [out]"
    using assms(2) out(1) by (simp add: outputs_for_def item_pushed_def)
  show "map pairedItem (outputs_for a rt h items i) = [Some i]"
    using o out(2) by simp
  show "map (\<lambda>out. get_prop (json out) ''error'') (outputs_for a rt h items i)
          = [JStr (if m = [] \<and> (a = Extraction \<or> a = Classification)
                   then ''Unknown error'' else m)]"
    using o out(3) by simp
next
  assume h: "\<not> continueOnFail h \<and> list_all (\<lambda>j. succeeds (try_block a rt h items j)) [0..<i]"
  let ?t = "if a = OCR
            then new_Error (''Upstage Document OCR failed for item '' @ string_of_nat i @
                            '': '' @ m)
            else e"
  from h have before: "\<forall>j < i. item_thrown (try_block a rt h items) (catch_block a rt h) j = None"
    by (auto simp: list_all_iff intro: succeeds_not_thrown)
  from h have "catch_block a rt h i e = Inl ?t"
    using catch_block_rethrow [OF _ assms(3,4), of h a rt i] by simp
  with assms(2) have here: "item_thrown (try_block a rt h items) (catch_block a rt h) i = Some ?t"
    by (simp add: item_thrown_def)
  from run_loop_aborts [OF assms(1) before here] assms(2)
  have ex: "execute a rt h items =
          (concat (map (requests_for a rt h items) [0..<i]) @ reqs, Threw ?t)"
    by (simp add: execute_unfold requests_for_def [abs_def])
  then show "execute a rt h items =
          (concat (map (requests_for a rt h items) [0..<i]) @ reqs, Threw ?t)" .
  have "list_all (\<lambda>p. fst p \<le> i) (concat (map (requests_for a rt h items) [0..<i]))"
    by (rule tagged_up_to) (auto simp: requests_for_def try_block_tagged)
  moreover have "list_all (\<lambda>p. fst p \<le> i) reqs"
    using try_block_tagged [of i a rt h items] assms(2) by (auto simp: list_all_iff)
  ultimately show "list_all (\<lambda>p. fst p \<le> i) (fst (execute a rt h items))"
    by (simp add: ex)
qed

theorem C2_error_item_or_abort_witness:
  "try_block Classification sample_runtime (classify_host True ''stop'') three_items 1
     = ([], Inl (new_Error missing_url_message))
   \<and> continueOnFail (classify_host True ''stop'')
   \<and> snd (execute Classification sample_runtime (classify_host True ''stop'') three_items)
     = Returned [invoice_item ''high'' 0, error_item missing_url_message 1,
                 invoice_item ''high'' 2]
   \<and> map fst (fst (execute Classification sample_runtime (classify_host True ''stop'')
                     three_items)) = [0, 2]
   \<and> \<not> continueOnFail (classify_host False ''stop'')
   \<and> snd (execute Classification sample_runtime (classify_host False ''stop'') three_items)
     = Threw (new_Error missing_url_message)
   \<and> map fst (fst (execute Classification sample_runtime (classify_host False ''stop'')
                     three_items)) = [0]"
proof -
  let ?T = "classify_host True ''stop''"
  let ?F = "classify_host False ''stop''"
  have i: "1 < length three_items" by (simp add: three_items_def)
  have tT: "try_block Classification sample_runtime ?T three_items 1
            = ([], Inl (new_Error missing_url_message))" by code_simp
  have tF: "try_block Classification sample_runtime ?F three_items 1
            = ([], Inl (new_Error missing_url_message))" by code_simp
  have e: "is_Error (new_Error missing_url_message)" by (simp add: new_Error_def)
  have m: "message (new_Error missing_url_message) = Some missing_url_message"
    by (simp add: new_Error_def)
  have cT: "continueOnFail ?T" by (simp add: classify_host_def sample_host_def)
  have cF: "\<not> continueOnFail ?F" by (simp add: classify_host_def sample_host_def)
  have s: "list_all (\<lambda>j. succeeds (try_block Classification sample_runtime ?F three_items j))
             [0..<1]" by code_simp
  have rT: "snd (execute Classification sample_runtime ?T three_items)
            = Returned [invoice_item ''high'' 0, error_item missing_url_message 1,
                        invoice_item ''high'' 2]" by code_simp
  have lT: "map fst (fst (execute Classification sample_runtime ?T three_items)) = [0, 2]"
    by code_simp
  have rF: "snd (execute Classification sample_runtime ?F three_items)
            = Threw (new_Error missing_url_message)" by code_simp
  have lF: "map fst (fst (execute Classification sample_runtime ?F three_items)) = [0]"
    by code_simp
  note C2_error_item_or_abort [OF i tT e m] C2_error_item_or_abort [OF i tF e m]
  with cT cF s have "list_all (\<lambda>p. fst p \<le> 1)
      (fst (execute Classification sample_runtime ?F three_items))" by blast
  with tT cT rT lT cF rF lF show ?thesis by simp
qed

lemma schema_only_format_error:
  assumes "schema_only_format rt h i = Inl e"
  shows "\<exists>msg. e = new_Error (''Invalid JSON schema provided: '' @ msg)"
  using assms by (auto simp: schema_only_format_def Let_def split: sum.splits)

lemma full_response_format_error:
  assumes "full_response_format rt h i = Inl e"
  shows "\<exists>msg. e = new_Error (''Invalid full response format JSON provided: '' @ msg)"
  using assms by (auto simp: full_response_format_def Let_def split: sum.splits)

lemma dataUrlOrHttp_empty:
  assumes "stringParameter h ''inputType'' i = ''url''"
    and "stringParameter h ''imageUrl'' i = []"
  shows "dataUrlOrHttp rt h items i = Inl (new_Error ''Image URL is required.'')"
  using assms by (simp add: dataUrlOrHttp_def Let_def)

lemma Extraction_try_empty_url:
  assumes "stringParameter h ''inputType'' i = ''url''"
    and "stringParameter h ''imageUrl'' i = []"
  shows "\<exists>m. InformationExtractionUpstage_try rt h items i = ([], Inl (new_Error m))
           \<and> (m = ''Image URL is required.''
                \<or> prefix ''Invalid JSON schema provided: '' m
                \<or> prefix ''Invalid full response format JSON provided: '' m)"
proof (cases "stringParameter h ''operation'' i = ''extract''")
  case False
  then show ?thesis
    by (intro exI [of _ "''Image URL is required.''"])
      (simp add: InformationExtractionUpstage_try_def generate_schema_request_def
        dataUrlOrHttp_empty [OF assms] with_request_def Let_def)
next
  case True
  let ?fmt = "if stringParameter h ''schemaInputType'' i = ''schema''
              then schema_only_format rt h i else full_response_format rt h i"
  show ?thesis
  proof (cases ?fmt)
    case (Inr responseFormat)
    with True show ?thesis
      by (intro exI [of _ "''Image URL is required.''"])
        (simp add: InformationExtractionUpstage_try_def extract_request_def
          dataUrlOrHttp_empty [OF assms] with_request_def Let_def)
  next
    case (Inl e)
    then obtain msg where "e = new_Error (''Invalid JSON schema provided: '' @ msg)
        \<or> e = new_Error (''Invalid full response format JSON provided: '' @ msg)"
      using schema_only_format_error full_response_format_error
      by (metis (full_types))
    with Inl True show ?thesis
      by (auto simp: InformationExtractionUpstage_try_def extract_request_def
          with_request_def Let_def)
  qed
qed

lemma Classification_try_empty_url:
  assumes "stringParameter h ''inputType'' i = ''url''"
    and "stringParameter h ''imageUrl'' i = []"
  shows "DocumentClassificationUpstage_try rt h items i
         = ([], Inl (new_Error ''Image URL is required when input type is URL.''))"
  using assms
  by (simp add: DocumentClassificationUpstage_try_def DocumentClassificationUpstage_request_def
      DocumentClassificationUpstage_content_def with_request_def Let_def)

text \<open>
  C7. In the classification and in the extraction adapter, an item in URL mode with an
  empty image URL throws an \<^verbatim>\<open>Error\<close> with a message that says what is wrong, and no
  request has been issued for the item. Under continue-on-fail the item contributes
  exactly the output \<^verbatim>\<open>{error: m}\<close> paired with its index, and \<^verbatim>\<open>execute\<close> returns the
  outputs of all items, each item's own, in order.
\<close>

theorem C7_empty_image_url:
  assumes "a = Classification \<or> a = Extraction"
    and "i < length items"
    and "stringParameter h ''inputType'' i = ''url''"
    and "stringParameter h ''imageUrl'' i = []"
  shows "\<exists>m. try_block a rt h items i = ([], Inl (new_Error m))
           \<and> requests_for a rt h items i = []
           \<and> (if a = Classification then m = ''Image URL is required when input type is URL.''
              else m = ''Image URL is required.''
                   \<or> prefix ''Invalid JSON schema provided: '' m
                   \<or> prefix ''Invalid full response format JSON provided: '' m)
           \<and> (if continueOnFail h
              then outputs_for a rt h items i
                     = [\<lparr>json = JObj [(''error'', JStr m)], binary = None, pairedItem = Some i\<rparr>]
                   \<and> execute a rt h items
                     = (concat (map (requests_for a rt h items) [0..<length items]),
                        Returned (concat (map (outputs_for a rt h items) [0..<length items])))
              else outputs_for a rt h items i = [])"
proof -
  obtain m where t: "try_block a rt h items i = ([], Inl (new_Error m))"
    and m: "if a = Classification then m = ''Image URL is required when input type is URL.''
            else m = ''Image URL is required.''
                 \<or> prefix ''Invalid JSON schema provided: '' m
                 \<or> prefix ''Invalid full response format JSON provided: '' m"
    using assms(1) Classification_try_empty_url [OF assms(3,4), of rt items]
      Extraction_try_empty_url [OF assms(3,4), of rt items]
    by auto
  from m have ne: "m \<noteq> []" by (auto split: if_splits)
  have c: "catch_block a rt h i (new_Error m)
           = (if continueOnFail h
              then Inr [\<lparr>json = JObj [(''error'', JStr m)], binary = None, pairedItem = Some i\<rparr>]
              else Inl (new_Error m))"
    using assms(1) ne
    by (auto simp: error_item_or_rethrow_def message_or_unknown_def new_Error_def)
  have o: "outputs_for a rt h items i
           = (if continueOnFail h
              then [\<lparr>json = JObj [(''error'', JStr m)], binary = None, pairedItem = Some i\<rparr>]
              else [])"
    using t c by (simp add: outputs_for_def item_pushed_def)
  have r: "requests_for a rt h items i = []"
    using t by (simp add: requests_for_def)
  show ?thesis
    using t m o r execute_continue [of h a rt items] by (intro exI [of _ m]) simp
qed

theorem C7_empty_image_url_witness:
  "stringParameter (classify_host True ''stop'') ''inputType'' 1 = ''url''
   \<and> stringParameter (classify_host True ''stop'') ''imageUrl'' 1 = []
   \<and> try_block Classification sample_runtime (classify_host True ''stop'') three_items 1
     = ([], Inl (new_Error missing_url_message))
   \<and> snd (execute Classification sample_runtime (classify_host True ''stop'') three_items)
     = Returned [invoice_item ''high'' 0, error_item missing_url_message 1,
                 invoice_item ''high'' 2]
   \<and> try_block Extraction sample_runtime (schema_host True) three_items 1
     = ([], Inl (new_Error ''Image URL is required.''))
   \<and> snd (execute Extraction sample_runtime (schema_host True) three_items)
     = Returned [sample_item\<lparr>json := JObj [(''id'', JNum 0)], pairedItem := Some 0\<rparr>,
                 error_item ''Image URL is required.'' 1,
                 sample_item\<lparr>json := JObj [(''id'', JNum 2)], pairedItem := Some 2\<rparr>]"
proof -
  let ?C = "classify_host True ''stop''"
  let ?E = "schema_host True"
  have i: "1 < length three_items" by (simp add: three_items_def)
  have c1: "stringParameter ?C ''inputType'' 1 = ''url''" by code_simp
  have c2: "stringParameter ?C ''imageUrl'' 1 = []" by code_simp
  have e1: "stringParameter ?E ''inputType'' 1 = ''url''" by code_simp
  have e2: "stringParameter ?E ''imageUrl'' 1 = []" by code_simp
  have a1: "Classification = Classification \<or> Classification = Extraction" by simp
  have a2: "Extraction = Classification \<or> Extraction = Extraction" by simp
  have tC: "try_block Classification sample_runtime ?C three_items 1
            = ([], Inl (new_Error missing_url_message))" by code_simp
  have rC: "snd (execute Classification sample_runtime ?C three_items)
            = Returned [invoice_item ''high'' 0, error_item missing_url_message 1,
                        invoice_item ''high'' 2]" by code_simp
  have tE: "try_block Extraction sample_runtime ?E three_items 1
            = ([], Inl (new_Error ''Image URL is required.''))" by code_simp
  have rE: "snd (execute Extraction sample_runtime ?E three_items)
            = Returned [sample_item\<lparr>json := JObj [(''id'', JNum 0)], pairedItem := Some 0\<rparr>,
                        error_item ''Image URL is required.'' 1,
                        sample_item\<lparr>json := JObj [(''id'', JNum 2)], pairedItem := Some 2\<rparr>]"
    by code_simp
  from C7_empty_image_url [OF a1 i c1 c2, of sample_runtime]
    C7_empty_image_url [OF a2 i e1 e2, of sample_runtime]
  have "requests_for Classification sample_runtime ?C three_items 1 = []
        \<and> requests_for Extraction sample_runtime ?E three_items 1 = []" by blast
  with c1 c2 tC rC tE rE show ?thesis by simp
qed

text \<open>
  C8. In return mode \<^verbatim>\<open>classification\<close> the output item of a response has the confidence
  \<^verbatim>\<open>high\<close> when \<^verbatim>\<open>choices[0].finish_reason\<close> is the string \<^verbatim>\<open>stop\<close>, and \<^verbatim>\<open>low\<close> for
  every other value, a missing one included.
\<close>

theorem C8_confidence_from_finish_reason:
  assumes "stringParameter h ''returnMode'' i = ''classification''"
    and "DocumentClassificationUpstage_request rt h items i = Inr req"
    and "httpRequestWithAuthentication h i req = Inr response"
  shows "map (\<lambda>out. get_prop (json out) ''confidence'')
             (outputs_for Classification rt h items i)
         = [if get_prop (get_index (get_prop response ''choices'') 0) ''finish_reason''
               = JStr ''stop''
            then JStr ''high'' else JStr ''low'']"
  using assms
  by (simp add: outputs_for_def item_pushed_def DocumentClassificationUpstage_try_def
      with_request_def DocumentClassificationUpstage_response_def first_choice_def Let_def)

theorem C8_confidence_from_finish_reason_witness:
  "stringParameter (classify_host False ''stop'') ''returnMode'' 0 = ''classification''
   \<and> get_prop (get_index (get_prop (choice_response ''stop'') ''choices'') 0) ''finish_reason''
     = JStr ''stop''
   \<and> map (\<lambda>out. get_prop (json out) ''confidence'')
         (outputs_for Classification sample_runtime (classify_host False ''stop'') three_items 0)
     = [JStr ''high'']
   \<and> map (\<lambda>out. get_prop (json out) ''confidence'')
         (outputs_for Classification sample_runtime (classify_host False ''length'') three_items 0)
     = [JStr ''low'']"
proof -
  let ?S = "classify_host False ''stop''"
  let ?L = "classify_host False ''length''"
  let ?rS = "projr (DocumentClassificationUpstage_request sample_runtime ?S three_items 0)"
  let ?rL = "projr (DocumentClassificationUpstage_request sample_runtime ?L three_items 0)"
  have mS: "stringParameter ?S ''returnMode'' 0 = ''classification''" by code_simp
  have mL: "stringParameter ?L ''returnMode'' 0 = ''classification''" by code_simp
  have qS: "DocumentClassificationUpstage_request sample_runtime ?S three_items 0 = Inr ?rS"
    by code_simp
  have qL: "DocumentClassificationUpstage_request sample_runtime ?L three_items 0 = Inr ?rL"
    by code_simp
  have hS: "httpRequestWithAuthentication ?S 0 ?rS = Inr (choice_response ''stop'')"
    by (simp add: classify_host_def sample_host_def)
  have hL: "httpRequestWithAuthentication ?L 0 ?rL = Inr (choice_response ''length'')"
    by (simp add: classify_host_def sample_host_def)
  have fS: "get_prop (get_index (get_prop (choice_response ''stop'') ''choices'') 0)
              ''finish_reason'' = JStr ''stop''" by code_simp
  have fL: "get_prop (get_index (get_prop (choice_response ''length'') ''choices'') 0)
              ''finish_reason'' \<noteq> JStr ''stop''" by code_simp
  from C8_confidence_from_finish_reason [OF mS qS hS]
    C8_confidence_from_finish_reason [OF mL qL hL] mS fS fL
  show ?thesis by simp
qed

text \<open>
  C9. In return mode \<^verbatim>\<open>text\<close> the OCR adapter's output for a response object is
  \<^verbatim>\<open>{text: t}\<close>, paired with the item, where \<open>t\<close> is the \<^verbatim>\<open>text\<close> field of the response,
  and the empty string when the field is missing or \<^verbatim>\<open>null\<close>. The response
  \<^verbatim>\<open>{text: "Hello"}\<close> gives \<^verbatim>\<open>{text: "Hello"}\<close>.
\<close>

theorem C9_text_mode:
  assumes "stringParameter h ''returnMode'' i = ''text''"
    and "DocumentOCRUpstage_request rt h items i = Inr req"
    and "httpRequestWithAuthentication h i req = Inr response"
    and "is_object response"
  shows "outputs_for OCR rt h items i
         = [\<lparr>json = JObj [(''text'',
                             if get_prop response ''text'' = JUndefined
                                \<or> get_prop response ''text'' = JNull
                             then JStr [] else get_prop response ''text'')],
              binary = None, pairedItem = Some i\<rparr>]"
proof -
  from assms(4) have "truthy response" by (cases response) simp_all
  with assms show ?thesis
    by (simp add: outputs_for_def item_pushed_def DocumentOCRUpstage_try_def
        with_request_def DocumentOCRUpstage_response_def nullish_or_def nullish_def Let_def)
qed

theorem C9_text_mode_witness:
  "stringParameter (ocr_host (JObj [(''text'', JStr ''Hello'')])) ''returnMode'' 0 = ''text''
   \<and> outputs_for OCR sample_runtime (ocr_host (JObj [(''text'', JStr ''Hello'')])) [sample_item] 0
     = [\<lparr>json = JObj [(''text'', JStr ''Hello'')], binary = None, pairedItem = Some 0\<rparr>]
   \<and> outputs_for OCR sample_runtime (ocr_host (JObj [(''pages'', JArr [])])) [sample_item] 0
     = [\<lparr>json = JObj [(''text'', JStr [])], binary = None, pairedItem = Some 0\<rparr>]"
proof -
  let ?A = "ocr_host (JObj [(''text'', JStr ''Hello'')])"
  let ?B = "ocr_host (JObj [(''pages'', JArr [])])"
  let ?rA = "projr (DocumentOCRUpstage_request sample_runtime ?A [sample_item] 0)"
  let ?rB = "projr (DocumentOCRUpstage_request sample_runtime ?B [sample_item] 0)"
  have mA: "stringParameter ?A ''returnMode'' 0 = ''text''" by code_simp
  have mB: "stringParameter ?B ''returnMode'' 0 = ''text''" by code_simp
  have qA: "DocumentOCRUpstage_request sample_runtime ?A [sample_item] 0 = Inr ?rA"
    by code_simp
  have qB: "DocumentOCRUpstage_request sample_runtime ?B [sample_item] 0 = Inr ?rB"
    by code_simp
  have hA: "httpRequestWithAuthentication ?A 0 ?rA = Inr (JObj [(''text'', JStr ''Hello'')])"
    by (simp add: ocr_host_def sample_host_def)
  have hB: "httpRequestWithAuthentication ?B 0 ?rB = Inr (JObj [(''pages'', JArr [])])"
    by (simp add: ocr_host_def sample_host_def)
  have oA: "is_object (JObj [(''text'', JStr ''Hello'')])" by simp
  have oB: "is_object (JObj [(''pages'', JArr [])])" by simp
  from C9_text_mode [OF mA qA hA oA] C9_text_mode [OF mB qB hB oB] mA
  show ?thesis by simp
qed

section \<open>Properties of the multipart builder\<close>

lemma split_first_at:
  assumes "\<forall>k < length a. \<not> prefix p (drop k (a @ p @ r))"
  shows "split_first p (a @ p @ r) = Some (a, r)"
  using assms
proof (induction a)
  case Nil
  show ?case
  proof (cases "p @ r")
    case Nil
    then show ?thesis by simp
  next
    case (Cons c cs)
    have "prefix p (p @ r)" and "drop (length p) (p @ r) = r" by simp_all
    then have "prefix p (c # cs)" and "drop (length p) (c # cs) = r"
      by (simp_all only: Cons)
    then show ?thesis by (simp add: Cons)
  qed
next
  case (Cons c a)
  from Cons.prems have "\<not> prefix p (c # a @ p @ r)" by auto
  moreover have "\<forall>k < length a. \<not> prefix p (drop k (a @ p @ r))"
  proof (intro allI impI)
    fix k assume "k < length a"
    with Cons.prems have "\<not> prefix p (drop (Suc k) ((c # a) @ p @ r))" by auto
    then show "\<not> prefix p (drop k (a @ p @ r))" by simp
  qed
  ultimately show ?case using Cons.IH by simp
qed

lemma no_early_match:
  assumes p: "p = x # p'" and x: "x \<notin> set p'" and a: "\<not> sublist p a"
  shows "\<forall>k < length a. \<not> prefix p (drop k (a @ p @ r))"
proof (intro allI impI notI)
  fix k assume k: "k < length a" and pre: "prefix p (drop k (a @ p @ r))"
  let ?a2 = "drop k a"
  from k have ne: "?a2 \<noteq> []" by simp
  from k pre have "prefix p (?a2 @ p @ r)" by simp
  then have "prefix p ?a2 \<or> (\<exists>us. p = ?a2 @ us \<and> prefix us (p @ r))"
    by (simp only: prefix_append)
  then consider "prefix p ?a2" | us where "p = ?a2 @ us" "prefix us (p @ r)"
    by blast
  then show False
  proof cases
    case 1
    then obtain zs where "?a2 = p @ zs" by (auto simp: prefix_def)
    then have "take k a @ p @ zs = take k a @ drop k a" by simp
    then have "a = take k a @ p @ zs" by simp
    then have "sublist p a" unfolding sublist_def by blast
    with a show False by simp
  next
    case 2
    show False
    proof (cases us)
      case Nil
      with 2 have "p = ?a2" by simp
      then have "take k a @ p @ [] = take k a @ drop k a" by simp
      then have "a = take k a @ p @ []" by simp
      then have "sublist p a" unfolding sublist_def by blast
      with a show False by simp
    next
      case (Cons u us')
      with 2(2) p have "u = x" by simp
      from ne obtain y ys where a2: "?a2 = y # ys" by (cases "?a2") auto
      with 2(1) p Cons have "p' = ys @ u # us'" by simp
      with \<open>u = x\<close> x show False by simp
    qed
  qed
qed

lemma split_first_unique:
  assumes "p = x # p'" and "x \<notin> set p'" and "\<not> sublist p a"
  shows "split_first p (a @ p @ r) = Some (a, r)"
  by (rule split_first_at) (rule no_early_match [OF assms])

lemma sublist_skip:
  assumes "x \<notin> set H"
  shows "sublist (x # p') (H @ s) \<longleftrightarrow> sublist (x # p') s"
  using assms by (induction H) (auto simp: sublist_Cons_right)

lemma not_sublist_without_head:
  assumes "x \<notin> set H"
  shows "\<not> sublist (x # p') H"
  using sublist_skip [OF assms, of p' "[]"] by simp

lemma unquote_plain:
  assumes "DQUOTE \<notin> set n" and "CHR 0x5C \<notin> set n"
  shows "unquote (n @ DQUOTE # r) = Some (n, r)"
  using assms by (induction n) auto

lemma split_headers_line:
  assumes "CHR 0x0D \<notin> set line" and "line \<noteq> []"
  shows "split_headers (line @ CRLF @ rest) =
           (case split_headers rest of
              None \<Rightarrow> None
            | Some (lines, content) \<Rightarrow> Some (line # lines, content))"
proof -
  have "\<not> sublist CRLF line"
    unfolding CRLF_def using assms(1) by (rule not_sublist_without_head)
  then have "split_first CRLF (line @ CRLF @ rest) = Some (line, rest)"
    by (intro split_first_unique [of _ "CHR 0x0D" "[CHR 0x0A]"]) (simp_all add: CRLF_def)
  with assms(2) show ?thesis
    by (simp add: split_headers.simps [of "line @ CRLF @ rest"])
qed

lemma split_headers_end: "split_headers (CRLF @ content) = Some ([], content)"
proof -
  have "split_first CRLF (CRLF @ content) = Some ([], content)"
    by (simp add: CRLF_def)
  then show ?thesis
    by (simp add: split_headers.simps [of "CRLF @ content"])
qed


lemma header_safe_quote: "header_safe n \<Longrightarrow> unquote (n @ DQUOTE # r) = Some (n, r)"
  by (simp add: header_safe_def unquote_plain)

lemma parse_disposition_field:
  assumes "header_safe n"
  shows "parse_disposition (''form-data; name='' @ DQUOTE # n @ [DQUOTE]) = Some (n, None)"
  using header_safe_quote [OF assms, of "[]"]
  by (simp add: parse_disposition_def quoted_after_def)

lemma parse_disposition_file:
  assumes "header_safe n" and "header_safe f"
  shows "parse_disposition
           (''form-data; name='' @ DQUOTE # n @ DQUOTE # ''; filename='' @ DQUOTE # f @ [DQUOTE])
         = Some (n, Some f)"
  using header_safe_quote [OF assms(1), of "''; filename='' @ DQUOTE # f @ [DQUOTE]"]
    header_safe_quote [OF assms(2), of "[]"]
  by (simp add: parse_disposition_def quoted_after_def)

lemma parse_part_field:
  assumes "header_safe n"
  shows "parse_part (field_chunk n v) = Some (FieldPart n v)"
proof -
  let ?line = "''Content-Disposition: form-data; name='' @ DQUOTE # n @ [DQUOTE]"
  have cr: "CHR 0x0D \<notin> set ?line" using assms by (simp add: header_safe_def DQUOTE_def)
  have "field_chunk n v = ?line @ CRLF @ (CRLF @ v)" by (simp add: field_chunk_def)
  then have "split_headers (field_chunk n v) = Some ([?line], v)"
    using split_headers_line [OF cr, of "CRLF @ v"] by (simp add: split_headers_end)
  moreover have "header_value ''Content-Disposition'' [?line]
                 = Some (''form-data; name='' @ DQUOTE # n @ [DQUOTE])"
    by (simp add: header_value_def)
  ultimately show ?thesis
    using parse_disposition_field [OF assms] by (simp add: parse_part_def)
qed

lemma parse_part_file:
  assumes "header_safe (filename file)" and "line_safe (contentType file)"
  shows "parse_part (file_chunk file)
         = Some (FilePart ''document'' (filename file) (contentType file) (buffer file))"
proof -
  let ?l1 = "''Content-Disposition: form-data; name='' @ DQUOTE # ''document'' @ DQUOTE #
               ''; filename='' @ DQUOTE # filename file @ [DQUOTE]"
  let ?l2 = "''Content-Type: '' @ contentType file"
  have cr1: "CHR 0x0D \<notin> set ?l1" using assms(1) by (simp add: header_safe_def DQUOTE_def)
  have cr2: "CHR 0x0D \<notin> set ?l2" using assms(2) by (simp add: line_safe_def)
  have doc: "header_safe ''document''" by (simp add: header_safe_def DQUOTE_def)
  have "file_chunk file = ?l1 @ CRLF @ (?l2 @ CRLF @ (CRLF @ buffer file))"
    by (simp add: file_chunk_def)
  then have "split_headers (file_chunk file) = Some ([?l1, ?l2], buffer file)"
    using split_headers_line [OF cr1, of "?l2 @ CRLF @ (CRLF @ buffer file)"]
      split_headers_line [OF cr2, of "CRLF @ buffer file"]
    by (simp add: split_headers_end)
  moreover have "header_value ''Content-Disposition'' [?l1, ?l2]
                 = Some (''form-data; name='' @ DQUOTE # ''document'' @ DQUOTE #
                         ''; filename='' @ DQUOTE # filename file @ [DQUOTE])"
    by (simp add: header_value_def)
  moreover have "header_value ''Content-Type'' [?l1, ?l2] = Some (contentType file)"
    by (simp add: header_value_def)
  ultimately show ?thesis
    using parse_disposition_file [OF doc assms(1)] by (simp add: parse_part_def)
qed

lemma field_chunk_free:
  assumes "header_safe n" and "delimiter_free b v" and "D = CRLF @ ''--'' @ b"
  shows "\<not> sublist D (field_chunk n v)"
proof -
  let ?line = "''Content-Disposition: form-data; name='' @ DQUOTE # n @ [DQUOTE]"
  have cr: "CHR 0x0D \<notin> set ?line" using assms(1) by (simp add: header_safe_def DQUOTE_def)
  have D: "D = CHR 0x0D # CHR 0x0A # ''--'' @ b" using assms(3) by (simp add: CRLF_def)
  have "field_chunk n v = ?line @ CRLF @ CRLF @ v" by (simp add: field_chunk_def)
  then have "sublist D (field_chunk n v) \<longleftrightarrow> sublist D (CRLF @ CRLF @ v)"
    using sublist_skip [OF cr, of "CHR 0x0A # ''--'' @ b" "CRLF @ CRLF @ v"] by (simp add: D)
  also have "\<dots> \<longleftrightarrow> sublist D (CRLF @ v)"
    by (simp add: D CRLF_def sublist_Cons_right)
  finally show ?thesis using assms(2) by (simp add: delimiter_free_def assms(3))
qed

lemma file_chunk_free:
  assumes "header_safe (filename file)" and "line_safe (contentType file)"
    and "delimiter_free b (buffer file)" and "D = CRLF @ ''--'' @ b"
  shows "\<not> sublist D (file_chunk file)"
proof -
  let ?l1 = "''Content-Disposition: form-data; name='' @ DQUOTE # ''document'' @ DQUOTE #
               ''; filename='' @ DQUOTE # filename file @ [DQUOTE]"
  let ?l2 = "''Content-Type: '' @ contentType file"
  have cr1: "CHR 0x0D \<notin> set ?l1" using assms(1) by (simp add: header_safe_def DQUOTE_def)
  have cr2: "CHR 0x0D \<notin> set ?l2" using assms(2) by (simp add: line_safe_def)
  have D: "D = CHR 0x0D # CHR 0x0A # ''--'' @ b" using assms(4) by (simp add: CRLF_def)
  have "file_chunk file = ?l1 @ CRLF @ ?l2 @ CRLF @ CRLF @ buffer file"
    by (simp add: file_chunk_def)
  then have "sublist D (file_chunk file)
             \<longleftrightarrow> sublist D (CRLF @ ?l2 @ CRLF @ CRLF @ buffer file)"
    using sublist_skip [OF cr1, of "CHR 0x0A # ''--'' @ b"
        "CRLF @ ?l2 @ CRLF @ CRLF @ buffer file"] by (simp add: D)
  also have "\<dots> \<longleftrightarrow> sublist D (?l2 @ CRLF @ CRLF @ buffer file)"
    by (simp add: D CRLF_def sublist_Cons_right)
  also have "\<dots> \<longleftrightarrow> sublist D (CRLF @ CRLF @ buffer file)"
    using sublist_skip [OF cr2, of "CHR 0x0A # ''--'' @ b" "CRLF @ CRLF @ buffer file"]
    by (simp add: D)
  also have "\<dots> \<longleftrightarrow> sublist D (CRLF @ buffer file)"
    by (simp add: D CRLF_def sublist_Cons_right)
  finally show ?thesis using assms(3) by (simp add: delimiter_free_def assms(4))
qed


lemma parse_after_chunk:
  assumes D: "D = CRLF @ ''--'' @ b" and cr: "CHR 0x0D \<notin> set b" and free: "\<not> sublist D chunk"
  shows "parse_after D (CRLF @ chunk @ D @ rest) =
           (case parse_part chunk of
              None \<Rightarrow> None
            | Some part \<Rightarrow>
                (case parse_after D rest of
                   None \<Rightarrow> None
                 | Some parts \<Rightarrow> Some (part # parts)))"
proof -
  have D': "D = CHR 0x0D # (CHR 0x0A # ''--'' @ b)" using D by (simp add: CRLF_def)
  have "CHR 0x0D \<notin> set (CHR 0x0A # ''--'' @ b)" using cr by simp
  from split_first_unique [OF D' this free]
  have s: "split_first D (chunk @ D @ rest) = Some (chunk, rest)" .
  have "\<not> prefix ''--'' (CRLF @ chunk @ D @ rest)" by (simp add: CRLF_def)
  moreover have "prefix CRLF (CRLF @ chunk @ D @ rest)" by simp
  moreover have "drop 2 (CRLF @ chunk @ D @ rest) = chunk @ D @ rest" by (simp add: CRLF_def)
  ultimately show ?thesis
    using s by (simp add: parse_after.simps [of D "CRLF @ chunk @ D @ rest"])
qed

lemma parse_after_close: "parse_after D (CHR ''-'' # CHR ''-'' # rest) = Some []"
  by (subst parse_after.simps) simp

lemma parse_field_stream:
  assumes D: "D = CRLF @ ''--'' @ b" and cr: "CHR 0x0D \<notin> set b"
    and safe: "list_all (\<lambda>(name, value). header_safe name \<and> delimiter_free b value) entries"
  shows "parse_after D (field_stream D entries rest) =
           (case parse_after D rest of
              None \<Rightarrow> None
            | Some parts \<Rightarrow> Some (map (\<lambda>(name, value). FieldPart name value) entries @ parts))"
  using safe
proof (induction entries)
  case Nil
  show ?case by (simp add: field_stream_def split: option.splits)
next
  case (Cons e entries)
  obtain n v where e: "e = (n, v)" by (cases e)
  with Cons.prems have n: "header_safe n" and v: "delimiter_free b v"
    and rest: "list_all (\<lambda>(name, value). header_safe name \<and> delimiter_free b value) entries"
    by simp_all
  have unfold: "field_stream D (e # entries) rest
                = CRLF @ field_chunk n v @ D @ field_stream D entries rest"
    by (simp add: field_stream_def e)
  have free: "\<not> sublist D (field_chunk n v)"
    using n v D by (rule field_chunk_free)
  show ?case
    unfolding unfold parse_after_chunk [OF D cr free] parse_part_field [OF n] Cons.IH [OF rest]
    by (simp add: e split: option.splits)
qed

lemma body_stream:
  assumes "D = CRLF @ ''--'' @ ''----WebKitFormBoundary'' @ rnd"
  shows "CRLF @ form_body (createMultipartFormData rnd entries file)
         = D @ field_stream D entries (CRLF @ file_chunk file @ D @ ''--'' @ CRLF)"
proof -
  let ?B = "''----WebKitFormBoundary'' @ rnd"
  let ?f = "\<lambda>(name, value).
              ''--'' @ ?B @ CRLF @
              ''Content-Disposition: form-data; name='' @ DQUOTE # name @ DQUOTE # CRLF @ CRLF @
              value @ CRLF"
  have shift: "CRLF @ concat (map ?f es) @ ''--'' @ ?B @ T = D @ field_stream D es T" for es T
  proof (induction es)
    case Nil
    show ?case by (simp add: field_stream_def assms)
  next
    case (Cons e es)
    obtain n v where e: "e = (n, v)" by (cases e)
    have "CRLF @ concat (map ?f (e # es)) @ ''--'' @ ?B @ T
          = D @ CRLF @ field_chunk n v @ (CRLF @ concat (map ?f es) @ ''--'' @ ?B @ T)"
      by (simp add: e assms field_chunk_def)
    also have "\<dots> = D @ CRLF @ field_chunk n v @ D @ field_stream D es T"
      by (simp only: Cons.IH)
    also have "\<dots> = D @ field_stream D (e # es) T"
      by (simp add: field_stream_def e)
    finally show ?case .
  qed
  have "form_body (createMultipartFormData rnd entries file)
        = concat (map ?f entries) @ ''--'' @ ?B @
            (CRLF @ file_chunk file @ CRLF @ ''--'' @ ?B @ ''--'' @ CRLF)"
    by (simp add: createMultipartFormData_def Let_def file_chunk_def)
  then have "CRLF @ form_body (createMultipartFormData rnd entries file)
        = D @ field_stream D entries (CRLF @ file_chunk file @ CRLF @ ''--'' @ ?B @ ''--'' @ CRLF)"
    by (simp only: shift)
  then show ?thesis by (simp add: assms)
qed

lemma base36_no_CR: "base36 rnd \<Longrightarrow> CHR 0x0D \<notin> set (''----WebKitFormBoundary'' @ rnd)"
  by (auto simp: base36_def)

text \<open>
  C3, as stated: for every field map and file descriptor the parser finds the supplied
  fields and the file part. The builder copies names and the file name between the quotes
  as they are: a file name with a double quote in it ends the quoted string early, and the
  body does not parse to the parts that were supplied.
\<close>

theorem C3_quoted_filename_counterexample:
  "parse_multipart
     (form_contentType (createMultipartFormData ''k3x9q'' [(''model'', ''ocr'')] quoted_file))
     (form_body (createMultipartFormData ''k3x9q'' [(''model'', ''ocr'')] quoted_file))
   \<noteq> Some (expected_parts [(''model'', ''ocr'')] quoted_file)"
  by code_simp

text \<open>
  C3, amended. Let the boundary suffix consist of base-36 digits, as the builder draws it.
  Let no field name and not the file name contain a double quote, a backslash, CR or LF,
  let the content type contain no CR or LF, and let the delimiter line of the boundary
  occur neither in a field value nor in the file bytes, each taken behind a line break.
  Then the body, parsed with the boundary of the returned content-type header value, gives
  exactly the supplied fields as string parts, in order, followed by one file part named
  \<^verbatim>\<open>document\<close> with the given file name, content type and bytes.
\<close>

theorem C3_multipart_roundtrip:
  assumes "base36 rnd"
    and "list_all (\<lambda>(name, value).
            header_safe name \<and> delimiter_free (''----WebKitFormBoundary'' @ rnd) value) entries"
    and "header_safe (filename file)"
    and "line_safe (contentType file)"
    and "delimiter_free (''----WebKitFormBoundary'' @ rnd) (buffer file)"
  shows "parse_multipart (form_contentType (createMultipartFormData rnd entries file))
           (form_body (createMultipartFormData rnd entries file))
         = Some (expected_parts entries file)"
proof -
  let ?B = "''----WebKitFormBoundary'' @ rnd"
  let ?fd = "createMultipartFormData rnd entries file"
  define D where "D = CRLF @ ''--'' @ ?B"
  have cr: "CHR 0x0D \<notin> set ?B" using assms(1) by (rule base36_no_CR)
  have b: "boundary_of (form_contentType ?fd) = Some ?B"
    by (simp add: createMultipartFormData_def Let_def boundary_of_def)
  have shape: "CRLF @ form_body ?fd
               = D @ field_stream D entries (CRLF @ file_chunk file @ D @ ''--'' @ CRLF)"
    using D_def by (rule body_stream)
  have free: "\<not> sublist D (file_chunk file)"
    using assms(3,4,5) D_def by (rule file_chunk_free)
  have tail: "parse_after D (CRLF @ file_chunk file @ D @ ''--'' @ CRLF)
              = Some [FilePart ''document'' (filename file) (contentType file) (buffer file)]"
    unfolding parse_after_chunk [OF D_def cr free] parse_part_file [OF assms(3,4)]
    by (simp add: parse_after_close)
  have "parse_after D (field_stream D entries (CRLF @ file_chunk file @ D @ ''--'' @ CRLF))
        = Some (expected_parts entries file)"
    unfolding parse_field_stream [OF D_def cr assms(2)] tail
    by (simp add: expected_parts_def)
  moreover have "parse_multipart (form_contentType ?fd) (form_body ?fd)
        = (if prefix D (CRLF @ form_body ?fd)
           then parse_after D (drop (length D) (CRLF @ form_body ?fd)) else None)"
    unfolding parse_multipart_def b D_def by (simp only: option.case Let_def)
  ultimately show ?thesis
    by (simp only: shape) simp
qed

theorem C3_multipart_roundtrip_witness:
  "base36 ''k3x9q''
   \<and> list_all (\<lambda>(name, value).
        header_safe name \<and> delimiter_free (''----WebKitFormBoundary'' @ ''k3x9q'') value)
        [(''model'', ''ocr''), (''schema'', ''clova'')]
   \<and> header_safe (filename plain_file)
   \<and> line_safe (contentType plain_file)
   \<and> delimiter_free (''----WebKitFormBoundary'' @ ''k3x9q'') (buffer plain_file)
   \<and> parse_multipart
        (form_contentType (createMultipartFormData ''k3x9q''
           [(''model'', ''ocr''), (''schema'', ''clova'')] plain_file))
        (form_body (createMultipartFormData ''k3x9q''
           [(''model'', ''ocr''), (''schema'', ''clova'')] plain_file))
      = Some [FieldPart ''model'' ''ocr'', FieldPart ''schema'' ''clova'',
              FilePart ''document'' ''scan.png'' ''image/png'' ''DATA'']"
proof -
  let ?es = "[(''model'', ''ocr''), (''schema'', ''clova'')]"
  have h1: "base36 ''k3x9q''" by code_simp
  have h2: "list_all (\<lambda>(name, value).
              header_safe name \<and> delimiter_free (''----WebKitFormBoundary'' @ ''k3x9q'') value) ?es"
    by code_simp
  have h3: "header_safe (filename plain_file)" by code_simp
  have h4: "line_safe (contentType plain_file)" by code_simp
  have h5: "delimiter_free (''----WebKitFormBoundary'' @ ''k3x9q'') (buffer plain_file)"
    by code_simp
  have e: "expected_parts ?es plain_file
           = [FieldPart ''model'' ''ocr'', FieldPart ''schema'' ''clova'',
              FilePart ''document'' ''scan.png'' ''image/png'' ''DATA'']"
    by (simp add: expected_parts_def plain_file_def)
  from h1 h2 h3 h4 h5 C3_multipart_roundtrip [OF h1 h2 h3 h4 h5] e
  show ?thesis by simp
qed

section \<open>Properties of the JSON repair\<close>

lemma match_count_append: "match_count c (xs @ ys) = match_count c xs + match_count c ys"
  by (simp add: match_count_def)

lemma match_count_replicate:
  "match_count c (replicate n x) = (if x = c then n else 0)"
  by (simp add: match_count_def)

lemma fixImbalance_balanced:
  assumes "match_count CHR ''{'' s = match_count CHR ''}'' s"
    and "match_count CHR ''['' s = match_count CHR '']'' s"
  shows "fixImbalance s = s"
  using assms by (simp add: fixImbalance_def)

lemma fixImbalance_restores:
  assumes d: "d = s @ replicate a CHR ''}'' @ replicate b CHR '']''"
    and braces: "match_count CHR ''{'' d = match_count CHR ''}'' d"
    and brackets: "match_count CHR ''['' d = match_count CHR '']'' d"
  shows "fixImbalance s = d"
proof -
  have ob: "match_count CHR ''{'' s = match_count CHR ''}'' s + a"
    using braces by (simp add: d match_count_append match_count_replicate)
  have obk: "match_count CHR ''['' s = match_count CHR '']'' s + b"
    using brackets by (simp add: d match_count_append match_count_replicate)
  show ?thesis
    by (simp add: fixImbalance_def Let_def ob obk d)
qed

text \<open>
  C4. A string that the JSON parser accepts and whose opening and closing braces, and
  opening and closing brackets, are equal in number is returned unchanged.
\<close>

theorem C4_balanced_valid_unchanged:
  assumes "parse_ok s"
    and "match_count CHR ''{'' s = match_count CHR ''}'' s"
    and "match_count CHR ''['' s = match_count CHR '']'' s"
  shows "validateAndFixJsonStructure parse_ok s = s"
  using assms by (simp add: validateAndFixJsonStructure_def fixImbalance_balanced)

theorem C4_balanced_valid_unchanged_witness:
  "json_wellformed (CHR ''{'' # DQUOTE # CHR ''a'' # DQUOTE # '':[1]}'')
   \<and> validateAndFixJsonStructure json_wellformed (CHR ''{'' # DQUOTE # CHR ''a'' # DQUOTE # '':[1]}'')
       = CHR ''{'' # DQUOTE # CHR ''a'' # DQUOTE # '':[1]}''"
proof -
  let ?s = "CHR ''{'' # DQUOTE # CHR ''a'' # DQUOTE # '':[1]}''"
  have ok: "json_wellformed ?s" by code_simp
  have b1: "match_count CHR ''{'' ?s = match_count CHR ''}'' ?s" by code_simp
  have b2: "match_count CHR ''['' ?s = match_count CHR '']'' ?s" by code_simp
  from ok C4_balanced_valid_unchanged [of json_wellformed ?s, OF ok b1 b2]
  show ?thesis by simp
qed

text \<open>
  C5, as stated: deleting closing braces and brackets from the end of a JSON document gives
  a string whose repair parses. It fails where a bracket closes before a brace: from the
  document \<^verbatim>\<open>{"a":[1]}\<close> less its last two characters the brace is appended first, neither
  repair parses, and the truncated string comes back.
\<close>

theorem C5_mixed_closers_counterexample:
  "json_wellformed ((CHR ''{'' # DQUOTE # CHR ''a'' # DQUOTE # '':[1'') @ '']}'')
   \<and> \<not> json_wellformed
         (validateAndFixJsonStructure json_wellformed
            (CHR ''{'' # DQUOTE # CHR ''a'' # DQUOTE # '':[1''))"
  by code_simp

text \<open>
  C5, amended. Let a document that parses have as many opening as closing braces and as
  many opening as closing brackets, and let the deleted end be closing braces followed by
  closing brackets (one kind alone included), at least one character in all. Then the
  repair returns the document, which parses.
\<close>

theorem C5_braces_then_brackets_repaired:
  assumes "parse_ok d"
    and "d = s @ replicate a CHR ''}'' @ replicate b CHR '']''"
    and "1 \<le> a + b"
    and "match_count CHR ''{'' d = match_count CHR ''}'' d"
    and "match_count CHR ''['' d = match_count CHR '']'' d"
  shows "validateAndFixJsonStructure parse_ok s = d
         \<and> parse_ok (validateAndFixJsonStructure parse_ok s)"
proof -
  have "fixImbalance s = d"
    using assms(2,4,5) by (rule fixImbalance_restores)
  with assms(1) show ?thesis
    by (simp add: validateAndFixJsonStructure_def)
qed

theorem C5_braces_then_brackets_repaired_witness:
  "json_wellformed (''[{'' @ DQUOTE # CHR ''a'' # DQUOTE # '':1}]'')
   \<and> validateAndFixJsonStructure json_wellformed (''[{'' @ DQUOTE # CHR ''a'' # DQUOTE # '':1'')
       = ''[{'' @ DQUOTE # CHR ''a'' # DQUOTE # '':1}]''
   \<and> json_wellformed
         (validateAndFixJsonStructure json_wellformed (''[{'' @ DQUOTE # CHR ''a'' # DQUOTE # '':1''))"
proof -
  let ?s = "''[{'' @ DQUOTE # CHR ''a'' # DQUOTE # '':1''"
  let ?d = "''[{'' @ DQUOTE # CHR ''a'' # DQUOTE # '':1}]''"
  have ok: "json_wellformed ?d" by code_simp
  have d: "?d = ?s @ replicate 1 CHR ''}'' @ replicate 1 CHR '']''" by simp
  have n: "(1::nat) \<le> 1 + 1" by simp
  have b1: "match_count CHR ''{'' ?d = match_count CHR ''}'' ?d" by code_simp
  have b2: "match_count CHR ''['' ?d = match_count CHR '']'' ?d" by code_simp
  from ok C5_braces_then_brackets_repaired [of json_wellformed ?d ?s 1 1, OF ok d n b1 b2]
  show ?thesis by simp
qed

text \<open>
  C6. When neither the balanced string nor its advanced repair parses, the result is the
  argument itself, not one of the two intermediate strings.
\<close>

theorem C6_all_fail_returns_original:
  assumes "\<not> parse_ok (fixImbalance s)"
    and "\<not> parse_ok (advancedJsonFix (fixImbalance s))"
  shows "validateAndFixJsonStructure parse_ok s = s"
  using assms by (simp add: validateAndFixJsonStructure_def)

theorem C6_all_fail_returns_original_witness:
  "\<not> json_wellformed (fixImbalance (CHR ''{'' # DQUOTE # CHR ''a'' # DQUOTE # '':[1''))
   \<and> \<not> json_wellformed
         (advancedJsonFix (fixImbalance (CHR ''{'' # DQUOTE # CHR ''a'' # DQUOTE # '':[1'')))
   \<and> fixImbalance (CHR ''{'' # DQUOTE # CHR ''a'' # DQUOTE # '':[1'')
       \<noteq> CHR ''{'' # DQUOTE # CHR ''a'' # DQUOTE # '':[1''
   \<and> validateAndFixJsonStructure json_wellformed (CHR ''{'' # DQUOTE # CHR ''a'' # DQUOTE # '':[1'')
       = CHR ''{'' # DQUOTE # CHR ''a'' # DQUOTE # '':[1''"
proof -
  let ?s = "CHR ''{'' # DQUOTE # CHR ''a'' # DQUOTE # '':[1''"
  have f1: "\<not> json_wellformed (fixImbalance ?s)" by code_simp
  have f2: "\<not> json_wellformed (advancedJsonFix (fixImbalance ?s))" by code_simp
  have ne: "fixImbalance ?s \<noteq> ?s" by code_simp
  from f1 f2 ne C6_all_fail_returns_original [of json_wellformed ?s, OF f1 f2]
  show ?thesis by simp
qed

end
